theory Spec2Isabelle
  imports Complex_Main "HOL-Library.Char_ord" "HOL-Library.List_Lexorder"
begin

section \<open>JSON values and Python's comparisons on them\<close>

text \<open>
  Every collection of the marketplace is a JSON array of objects, read with
  \<^verbatim>\<open>json.load\<close> and written with \<^verbatim>\<open>json.dump\<close>. A loaded value is
  \<^verbatim>\<open>None\<close>, a \<^verbatim>\<open>bool\<close>, an unbounded \<^verbatim>\<open>int\<close>, a \<^verbatim>\<open>float\<close>, a \<^verbatim>\<open>str\<close>,
  a \<^verbatim>\<open>list\<close> or a \<^verbatim>\<open>dict\<close>. A finite float is modelled by the real number it
  denotes; NaN and the infinities are not modelled.
\<close>

datatype json =
    JNull
  | JBool bool
  | JInt int
  | JFloat real
  | JStr string
  | JArr "json list"
  | JObj "(string \<times> json) list"

text \<open>
  A record of a collection (a user, a property, a booking, a review, a verification
  session) is a Python \<^verbatim>\<open>dict\<close> from field names to JSON values: \<open>d k = None\<close> is
  \<^verbatim>\<open>k not in d\<close>, \<open>d(k \<mapsto> v)\<close> is \<^verbatim>\<open>d[k] = v\<close> and \<open>d ++ e\<close> is
  \<^verbatim>\<open>{**d, **e}\<close>, which is also what \<^verbatim>\<open>d.update(e)\<close> leaves in \<^verbatim>\<open>d\<close>.
\<close>

type_synonym dict = "string \<rightharpoonup> json"

datatype py_error = KeyError string | TypeError

text \<open>The numeric value of a bool, int or float: \<^verbatim>\<open>True == 1 == 1.0\<close> in Python.\<close>

fun py_num :: "json \<Rightarrow> real option" where
  "py_num (JBool b) = Some (if b then 1 else 0)"
| "py_num (JInt i) = Some (real_of_int i)"
| "py_num (JFloat r) = Some r"
| "py_num _ = None"

text \<open>
  Python's \<^verbatim>\<open>==\<close> on loaded values: numbers by value, strings and \<^verbatim>\<open>None\<close> by
  identity of content, lists element by element, dicts by equal size and equal values
  under every key of the left one. It never raises.
\<close>

fun py_eq :: "json \<Rightarrow> json \<Rightarrow> bool"
  and py_eq_list :: "json list \<Rightarrow> json list \<Rightarrow> bool"
  and py_eq_items :: "(string \<times> json) list \<Rightarrow> (string \<times> json) list \<Rightarrow> bool" where
  "py_eq JNull b = (b = JNull)"
| "py_eq (JBool x) b = (py_num b = Some (if x then 1 else 0))"
| "py_eq (JInt i) b = (py_num b = Some (real_of_int i))"
| "py_eq (JFloat r) b = (py_num b = Some r)"
| "py_eq (JStr s) b = (b = JStr s)"
| "py_eq (JArr xs) b = (case b of JArr ys \<Rightarrow> py_eq_list xs ys | _ \<Rightarrow> False)"
| "py_eq (JObj a) b =
     (case b of JObj c \<Rightarrow> length a = length c \<and> py_eq_items a c | _ \<Rightarrow> False)"
| "py_eq_list [] ys = (ys = [])"
| "py_eq_list (x # xs) ys =
     (case ys of [] \<Rightarrow> False | y # ys' \<Rightarrow> py_eq x y \<and> py_eq_list xs ys')"
| "py_eq_items [] c = True"
| "py_eq_items ((k, v) # r) c =
     (case map_of c k of None \<Rightarrow> False | Some w \<Rightarrow> py_eq v w \<and> py_eq_items r c)"

text \<open>
  Python's \<^verbatim>\<open><\<close>: numbers by value, strings and lists lexicographically, and a
  \<^verbatim>\<open>TypeError\<close> for every other pair. \<^verbatim>\<open>a > b\<close> is \<^verbatim>\<open>b < a\<close> on these values,
  the error included.
\<close>

fun py_lt :: "json \<Rightarrow> json \<Rightarrow> py_error + bool"
  and py_lt_list :: "json list \<Rightarrow> json list \<Rightarrow> py_error + bool" where
  "py_lt JNull b = Inl TypeError"
| "py_lt (JBool x) b =
     (case py_num b of Some y \<Rightarrow> Inr ((if x then 1 else 0) < y) | None \<Rightarrow> Inl TypeError)"
| "py_lt (JInt i) b =
     (case py_num b of Some y \<Rightarrow> Inr (real_of_int i < y) | None \<Rightarrow> Inl TypeError)"
| "py_lt (JFloat r) b =
     (case py_num b of Some y \<Rightarrow> Inr (r < y) | None \<Rightarrow> Inl TypeError)"
| "py_lt (JStr s) b = (case b of JStr t \<Rightarrow> Inr (s < t) | _ \<Rightarrow> Inl TypeError)"
| "py_lt (JArr xs) b = (case b of JArr ys \<Rightarrow> py_lt_list xs ys | _ \<Rightarrow> Inl TypeError)"
| "py_lt (JObj a) b = Inl TypeError"
| "py_lt_list [] ys = Inr (ys \<noteq> [])"
| "py_lt_list (x # xs) ys =
     (case ys of [] \<Rightarrow> Inr False
      | y # ys' \<Rightarrow> if py_eq x y then py_lt_list xs ys' else py_lt x y)"

definition py_gt :: "json \<Rightarrow> json \<Rightarrow> py_error + bool" where
  "py_gt a b = py_lt b a"

section \<open>The files and the atomic store\<close>

text \<open>
  A file holds either text that \<^verbatim>\<open>json.load\<close> rejects with a \<^verbatim>\<open>JSONDecodeError\<close>
  (an empty or half-written file among them) or a collection. The store is changed by
  three primitive steps, the ones the sources perform: \<^verbatim>\<open>open(p, 'w')\<close> creates or
  truncates \<open>p\<close>; \<^verbatim>\<open>json.dump\<close> followed by the close of the \<^verbatim>\<open>with\<close> block leaves
  the whole collection in \<open>p\<close>; \<^verbatim>\<open>os.replace(src, dst)\<close> renames \<open>src\<close> over \<open>dst\<close> in
  one step. The world records the files and, in order, every step taken, every
  \<^verbatim>\<open>time.sleep\<close> and every \<^verbatim>\<open>print\<close>.
\<close>

datatype content = Unparsable | Doc "dict list"

datatype fs_op = OpenW string | Dump string "dict list" | Replace string string

datatype event = IO fs_op | Sleep real | Print string

record world =
  files :: "string \<rightharpoonup> content"
  events :: "event list"

fun apply_op :: "fs_op \<Rightarrow> (string \<rightharpoonup> content) \<Rightarrow> (string \<rightharpoonup> content)" where
  "apply_op (OpenW p) fs = fs(p \<mapsto> Unparsable)"
| "apply_op (Dump p d) fs = fs(p \<mapsto> Doc d)"
| "apply_op (Replace src dst) fs =
     (case fs src of
        None \<Rightarrow> fs
      | Some c \<Rightarrow> if src = dst then fs else (fs(dst \<mapsto> c))(src := None))"

definition run_op :: "fs_op \<Rightarrow> world \<Rightarrow> world" where
  "run_op a w = w\<lparr>files := apply_op a (files w), events := events w @ [IO a]\<rparr>"

fun run_ops :: "fs_op list \<Rightarrow> world \<Rightarrow> world" where
  "run_ops [] w = w"
| "run_ops (a # as) w = run_ops as (run_op a w)"

definition log_event :: "event \<Rightarrow> world \<Rightarrow> world" where
  "log_event e w = w\<lparr>events := events w @ [e]\<rparr>"

definition USERS_FILE :: string where "USERS_FILE = ''data/users.json''"
definition PROPERTIES_FILE :: string where "PROPERTIES_FILE = ''data/properties.json''"
definition BOOKINGS_FILE :: string where "BOOKINGS_FILE = ''data/bookings.json''"
definition REVIEWS_FILE :: string where "REVIEWS_FILE = ''data/reviews.json''"
definition SESSIONS_FILE :: string where
  "SESSIONS_FILE = ''data/verification_sessions.json''"

text \<open>
  \<^verbatim>\<open>with open(p, 'w') as f: json.dump(d, f)\<close>, the in-place write used by
  \<^verbatim>\<open>load_data\<close>, \<^verbatim>\<open>save_users\<close>, \<^verbatim>\<open>save_verification_sessions\<close> and
  \<^verbatim>\<open>create_property\<close>. Outside \<^verbatim>\<open>save_data\<close>, whose handler catches them, the
  steps are taken to succeed.
\<close>

definition write_json :: "dict list \<Rightarrow> string \<Rightarrow> fs_op list" where
  "write_json d p = [OpenW p, Dump p d]"

text \<open>\<^verbatim>\<open>load_data\<close> of \<^verbatim>\<open>utils/database.py\<close>: the handler of a missing or
  unparsable file writes an empty collection and returns it.\<close>

definition load_data :: "string \<Rightarrow> world \<Rightarrow> dict list \<times> world" where
  "load_data file_path w =
     (case files w file_path of
        Some (Doc d) \<Rightarrow> (d, w)
      | _ \<Rightarrow> ([], run_ops (write_json [] file_path) w))"

text \<open>\<^verbatim>\<open>load_users\<close> and \<^verbatim>\<open>save_users\<close> of \<^verbatim>\<open>utils/auth.py\<close>.\<close>

definition load_users :: "world \<Rightarrow> dict list \<times> world" where
  "load_users w =
     (case files w USERS_FILE of
        Some (Doc d) \<Rightarrow> (d, w)
      | _ \<Rightarrow> ([], run_ops (write_json [] USERS_FILE) w))"

definition save_users :: "dict list \<Rightarrow> world \<Rightarrow> world" where
  "save_users users w = run_ops (write_json users USERS_FILE) w"

text \<open>
  \<^verbatim>\<open>save_data\<close>: up to \<^verbatim>\<open>max_retries\<close> attempts, each the three steps
  temp-open, dump, replace inside \<^verbatim>\<open>try\<close>. What the file system does to an attempt is
  a parameter: \<open>faults n\<close> names the step of attempt \<open>n\<close> that raises, if any. The steps
  before the failing one have happened when the handler runs. A loop that ended
  without \<^verbatim>\<open>return\<close> would give \<^verbatim>\<open>None\<close>, the result \<open>None\<close> here.
\<close>

datatype fault = OpenFails | DumpFails | ReplaceFails

fun steps_done :: "fault \<Rightarrow> nat" where
  "steps_done OpenFails = 0"
| "steps_done DumpFails = 1"
| "steps_done ReplaceFails = 2"

definition max_retries :: nat where "max_retries = 5"

definition retry_delay :: real where "retry_delay = 0.5"

definition save_steps :: "dict list \<Rightarrow> string \<Rightarrow> fs_op list" where
  "save_steps d file_path =
     [OpenW (file_path @ ''.tmp''), Dump (file_path @ ''.tmp'') d,
      Replace (file_path @ ''.tmp'') file_path]"

fun save_attempts ::
  "(nat \<Rightarrow> fault option) \<Rightarrow> dict list \<Rightarrow> string \<Rightarrow> nat list \<Rightarrow> world \<Rightarrow> bool option \<times> world" where
  "save_attempts faults d file_path [] w = (None, w)"
| "save_attempts faults d file_path (attempt # rest) w =
     (case faults attempt of
        None \<Rightarrow> (Some True, run_ops (save_steps d file_path) w)
      | Some f \<Rightarrow>
          (let w' = run_ops (take (steps_done f) (save_steps d file_path)) w in
           if attempt < max_retries - 1
           then save_attempts faults d file_path rest (log_event (Sleep retry_delay) w')
           else (Some False, log_event (Print file_path) w')))"

definition save_data ::
  "(nat \<Rightarrow> fault option) \<Rightarrow> dict list \<Rightarrow> string \<Rightarrow> world \<Rightarrow> bool option \<times> world" where
  "save_data faults d file_path w = save_attempts faults d file_path [0..<max_retries] w"

text \<open>The delays slept so far, in order.\<close>

fun sleeps :: "event list \<Rightarrow> real list" where
  "sleeps [] = []"
| "sleeps (Sleep t # es) = t # sleeps es"
| "sleeps (e # es) = sleeps es"

section \<open>Record collections (\<^verbatim>\<open>utils/database.py\<close>)\<close>

text \<open>
  \<^verbatim>\<open>get_properties\<close>. The filters are the items of the \<^verbatim>\<open>filters\<close> dict in
  iteration order; the empty list is both \<^verbatim>\<open>None\<close> and \<^verbatim>\<open>{}\<close>. The inner loop
  runs over every filter, also after \<^verbatim>\<open>matches\<close> has become false, so a
  \<^verbatim>\<open>KeyError\<close> or \<^verbatim>\<open>TypeError\<close> of a later filter is still raised.
\<close>

fun matches_filters :: "dict \<Rightarrow> (string \<times> json) list \<Rightarrow> bool \<Rightarrow> py_error + bool" where
  "matches_filters prop [] matches = Inr matches"
| "matches_filters prop ((key, val) # rest) matches =
     (if key = ''price_min'' then
        (case prop ''price_per_day'' of
           None \<Rightarrow> Inl (KeyError ''price_per_day'')
         | Some price \<Rightarrow>
             (case py_lt price val of
                Inl e \<Rightarrow> Inl e
              | Inr lower \<Rightarrow> matches_filters prop rest (if lower then False else matches)))
      else if key = ''price_max'' then
        (case prop ''price_per_day'' of
           None \<Rightarrow> Inl (KeyError ''price_per_day'')
         | Some price \<Rightarrow>
             (case py_gt price val of
                Inl e \<Rightarrow> Inl e
              | Inr higher \<Rightarrow> matches_filters prop rest (if higher then False else matches)))
      else
        (case prop key of
           None \<Rightarrow> matches_filters prop rest matches
         | Some x \<Rightarrow> matches_filters prop rest (if \<not> py_eq x val then False else matches)))"

fun filter_properties :: "dict list \<Rightarrow> (string \<times> json) list \<Rightarrow> py_error + dict list" where
  "filter_properties [] filters = Inr []"
| "filter_properties (prop # rest) filters =
     (case matches_filters prop filters True of
        Inl e \<Rightarrow> Inl e
      | Inr matches \<Rightarrow>
          (case filter_properties rest filters of
             Inl e \<Rightarrow> Inl e
           | Inr found \<Rightarrow> Inr (if matches then prop # found else found)))"

definition get_properties ::
  "(string \<times> json) list \<Rightarrow> world \<Rightarrow> py_error + (dict list \<times> world)" where
  "get_properties filters w =
     (let (properties, w1) = load_data PROPERTIES_FILE w in
      if filters = [] then Inr (properties, w1)
      else (case filter_properties properties filters of
              Inl e \<Rightarrow> Inl e
            | Inr found \<Rightarrow> Inr (found, w1)))"

text \<open>The price of a property as a number, when it has one.\<close>

definition price_of :: "dict \<Rightarrow> real option" where
  "price_of p = (case p ''price_per_day'' of None \<Rightarrow> None | Some v \<Rightarrow> py_num v)"

definition in_price_range :: "real \<Rightarrow> real \<Rightarrow> dict \<Rightarrow> bool" where
  "in_price_range a b p = (case price_of p of None \<Rightarrow> False | Some x \<Rightarrow> a \<le> x \<and> x \<le> b)"

text \<open>
  \<^verbatim>\<open>update_property\<close>. The record that matches is replaced by
  \<^verbatim>\<open>{**existing_data, **property_data}\<close>, where \<^verbatim>\<open>existing_data\<close> holds the
  \<^verbatim>\<open>id\<close>, \<^verbatim>\<open>owner_id\<close> and \<^verbatim>\<open>created_at\<close> of the old record. The result of
  \<^verbatim>\<open>save_data\<close> is dropped.
\<close>

fun update_property_loop :: "json \<Rightarrow> dict \<Rightarrow> dict list \<Rightarrow> py_error + dict list option" where
  "update_property_loop property_id property_data [] = Inr None"
| "update_property_loop property_id property_data (prop # rest) =
     (case prop ''id'' of
        None \<Rightarrow> Inl (KeyError ''id'')
      | Some pid \<Rightarrow>
          if py_eq pid property_id then
            (case prop ''owner_id'' of
               None \<Rightarrow> Inl (KeyError ''owner_id'')
             | Some owner \<Rightarrow>
                 (case prop ''created_at'' of
                    None \<Rightarrow> Inl (KeyError ''created_at'')
                  | Some created \<Rightarrow>
                      Inr (Some (([''id'' \<mapsto> pid, ''owner_id'' \<mapsto> owner,
                                   ''created_at'' \<mapsto> created] ++ property_data) # rest))))
          else
            (case update_property_loop property_id property_data rest of
               Inl e \<Rightarrow> Inl e
             | Inr None \<Rightarrow> Inr None
             | Inr (Some rest') \<Rightarrow> Inr (Some (prop # rest'))))"

definition update_property ::
  "(nat \<Rightarrow> fault option) \<Rightarrow> json \<Rightarrow> dict \<Rightarrow> world \<Rightarrow> py_error + (bool \<times> world)" where
  "update_property faults property_id property_data w =
     (let (properties, w1) = load_data PROPERTIES_FILE w in
      case update_property_loop property_id property_data properties of
        Inl e \<Rightarrow> Inl e
      | Inr None \<Rightarrow> Inr (False, w1)
      | Inr (Some properties') \<Rightarrow>
          Inr (True, snd (save_data faults properties' PROPERTIES_FILE w1)))"

text \<open>
  \<^verbatim>\<open>create_review\<close>. \<open>now\<close> is the text of \<^verbatim>\<open>datetime.now()\<close>. The only check
  is that the five required fields are present.
\<close>

definition setdefault :: "string \<Rightarrow> json \<Rightarrow> dict \<Rightarrow> dict" where
  "setdefault k v d = (case d k of None \<Rightarrow> d(k \<mapsto> v) | Some x \<Rightarrow> d)"

definition review_required_fields :: "string list" where
  "review_required_fields = [''id'', ''property_id'', ''user_id'', ''rating'', ''comment'']"

definition create_review ::
  "(nat \<Rightarrow> fault option) \<Rightarrow> string \<Rightarrow> dict \<Rightarrow> world \<Rightarrow> bool \<times> world" where
  "create_review faults now review_data w =
     (let (reviews, w1) = load_data REVIEWS_FILE w in
      if \<not> list_all (\<lambda>field. review_data field \<noteq> None) review_required_fields
      then (False, w1)
      else
        (let stamped = setdefault ''created_at'' (JStr now) review_data;
             review = setdefault ''verified'' (JBool False) stamped
         in (True, snd (save_data faults (reviews @ [review]) REVIEWS_FILE w1))))"

section \<open>The auth service (\<^verbatim>\<open>utils/auth.py\<close>)\<close>

text \<open>
  The loop shared by the update operations of the auth service and of the session
  tracker: \<^verbatim>\<open>for r in rs: if r['id'] == the_id: ...\<close>, which changes the first
  record with the id in place and then leaves the loop. The result is the changed
  collection, \<open>None\<close> when no record has the id, a \<^verbatim>\<open>KeyError\<close> when a record
  reached by the loop has no \<^verbatim>\<open>id\<close>.
\<close>

fun change_first :: "json \<Rightarrow> (dict \<Rightarrow> dict) \<Rightarrow> dict list \<Rightarrow> py_error + dict list option" where
  "change_first the_id change [] = Inr None"
| "change_first the_id change (r # rest) =
     (case r ''id'' of
        None \<Rightarrow> Inl (KeyError ''id'')
      | Some v \<Rightarrow>
          if py_eq v the_id then Inr (Some (change r # rest))
          else
            (case change_first the_id change rest of
               Inl e \<Rightarrow> Inl e
             | Inr None \<Rightarrow> Inr None
             | Inr (Some rest') \<Rightarrow> Inr (Some (r # rest'))))"

text \<open>\<^verbatim>\<open>update_kyc_status\<close> saves and returns \<^verbatim>\<open>True\<close> inside the loop, and
  returns \<^verbatim>\<open>False\<close> after it.\<close>

definition update_kyc_status :: "json \<Rightarrow> json \<Rightarrow> world \<Rightarrow> py_error + (bool \<times> world)" where
  "update_kyc_status user_id verified w =
     (let (users, w1) = load_users w in
      case change_first user_id (\<lambda>user. user(''kyc_verified'' \<mapsto> verified)) users of
        Inl e \<Rightarrow> Inl e
      | Inr None \<Rightarrow> Inr (False, w1)
      | Inr (Some users') \<Rightarrow> Inr (True, save_users users' w1))"

text \<open>\<^verbatim>\<open>update_user_role\<close>, \<^verbatim>\<open>update_user_profile\<close> and
  \<^verbatim>\<open>update_user_wallet\<close> leave the loop with \<^verbatim>\<open>break\<close>; the save and the
  \<^verbatim>\<open>return True\<close> follow the loop.\<close>

definition update_user_role :: "json \<Rightarrow> json \<Rightarrow> world \<Rightarrow> py_error + (bool \<times> world)" where
  "update_user_role user_id new_role w =
     (let (users, w1) = load_users w in
      case change_first user_id (\<lambda>user. user(''user_type'' \<mapsto> new_role)) users of
        Inl e \<Rightarrow> Inl e
      | Inr None \<Rightarrow> Inr (True, save_users users w1)
      | Inr (Some users') \<Rightarrow> Inr (True, save_users users' w1))"

definition update_user_profile :: "json \<Rightarrow> dict \<Rightarrow> world \<Rightarrow> py_error + (bool \<times> world)" where
  "update_user_profile user_id profile_data w =
     (let (users, w1) = load_users w in
      case change_first user_id (\<lambda>user. user ++ profile_data) users of
        Inl e \<Rightarrow> Inl e
      | Inr None \<Rightarrow> Inr (True, save_users users w1)
      | Inr (Some users') \<Rightarrow> Inr (True, save_users users' w1))"

definition update_user_wallet :: "json \<Rightarrow> json \<Rightarrow> world \<Rightarrow> py_error + (bool \<times> world)" where
  "update_user_wallet user_id wallet_address w =
     (let (users, w1) = load_users w in
      case change_first user_id (\<lambda>user. user(''wallet_address'' \<mapsto> wallet_address)) users of
        Inl e \<Rightarrow> Inl e
      | Inr None \<Rightarrow> Inr (True, save_users users w1)
      | Inr (Some users') \<Rightarrow> Inr (True, save_users users' w1))"

text \<open>
  Modelled from the spec: the PyJWT library (\<^verbatim>\<open>jwt.encode\<close>, \<^verbatim>\<open>jwt.decode\<close>) is
  not part of the sources. Following the spec, a token is a signed structure: it
  carries its payload and the key that signed it, and decoding with a key verifies the
  signature and the expiry, telling an expired signature from an invalid token.
  \<open>now\<close> is the time of the check in seconds.
\<close>

datatype token = Signed dict string | Malformed

datatype jwt_error = ExpiredSignatureError | InvalidTokenError

definition jwt_encode :: "dict \<Rightarrow> string \<Rightarrow> token" where
  "jwt_encode payload key = Signed payload key"

definition jwt_decode :: "token \<Rightarrow> string \<Rightarrow> real \<Rightarrow> jwt_error + dict" where
  "jwt_decode tok key now =
     (case tok of
        Malformed \<Rightarrow> Inl InvalidTokenError
      | Signed payload k \<Rightarrow>
          if k \<noteq> key then Inl InvalidTokenError
          else
            (case payload ''exp'' of
               None \<Rightarrow> Inr payload
             | Some e \<Rightarrow>
                 (case py_num e of
                    None \<Rightarrow> Inl InvalidTokenError
                  | Some t \<Rightarrow> if t \<le> now then Inl ExpiredSignatureError else Inr payload)))"

text \<open>
  \<^verbatim>\<open>verify_user\<close>. The SHA-256 hex digest of \<^verbatim>\<open>hash_password\<close> and the secret key
  of the process are parameters; \<open>now\<close> is \<^verbatim>\<open>datetime.now()\<close> in seconds. The second
  operand of \<^verbatim>\<open>and\<close> is evaluated only when the emails are equal.
\<close>

fun verify_user_loop ::
  "string \<Rightarrow> real \<Rightarrow> string \<Rightarrow> string \<Rightarrow> dict list \<Rightarrow> py_error + (token \<times> dict) option" where
  "verify_user_loop secret_key now email password_hash [] = Inr None"
| "verify_user_loop secret_key now email password_hash (user # rest) =
     (case user ''email'' of
        None \<Rightarrow> Inl (KeyError ''email'')
      | Some e \<Rightarrow>
          if py_eq e (JStr email) then
            (case user ''password_hash'' of
               None \<Rightarrow> Inl (KeyError ''password_hash'')
             | Some h \<Rightarrow>
                 if py_eq h (JStr password_hash) then
                   (case user ''id'' of
                      None \<Rightarrow> Inl (KeyError ''id'')
                    | Some uid \<Rightarrow>
                        Inr (Some (jwt_encode
                          [''user_id'' \<mapsto> uid, ''email'' \<mapsto> e,
                           ''exp'' \<mapsto> JFloat (now + 24 * 3600)] secret_key, user)))
                 else verify_user_loop secret_key now email password_hash rest)
          else verify_user_loop secret_key now email password_hash rest)"

definition verify_user ::
  "(string \<Rightarrow> string) \<Rightarrow> string \<Rightarrow> real \<Rightarrow> string \<Rightarrow> string \<Rightarrow> world \<Rightarrow>
     py_error + ((bool \<times> token option \<times> dict option) \<times> world)" where
  "verify_user sha256_hex secret_key now email password w =
     (let (users, w1) = load_users w;
          password_hash = sha256_hex password
      in case verify_user_loop secret_key now email password_hash users of
           Inl e \<Rightarrow> Inl e
         | Inr None \<Rightarrow> Inr ((False, None, None), w1)
         | Inr (Some (tok, user)) \<Rightarrow> Inr ((True, Some tok, Some user), w1))"

text \<open>\<^verbatim>\<open>verify_token\<close>: the third component is the payload or the message.\<close>

definition verify_token ::
  "string \<Rightarrow> real \<Rightarrow> token \<Rightarrow> py_error + (bool \<times> json option \<times> (dict + string))" where
  "verify_token secret_key now tok =
     (case jwt_decode tok secret_key now of
        Inr payload \<Rightarrow>
          (case payload ''user_id'' of
             None \<Rightarrow> Inl (KeyError ''user_id'')
           | Some uid \<Rightarrow> Inr (True, Some uid, Inl payload))
      | Inl ExpiredSignatureError \<Rightarrow> Inr (False, None, Inr ''Token expired'')
      | Inl InvalidTokenError \<Rightarrow> Inr (False, None, Inr ''Invalid token''))"

section \<open>The verification session tracker (\<^verbatim>\<open>video-verification.py\<close>)\<close>

definition load_verification_sessions :: "world \<Rightarrow> dict list \<times> world" where
  "load_verification_sessions w =
     (case files w SESSIONS_FILE of
        Some (Doc d) \<Rightarrow> (d, w)
      | _ \<Rightarrow> ([], run_ops (write_json [] SESSIONS_FILE) w))"

definition save_verification_sessions :: "dict list \<Rightarrow> world \<Rightarrow> world" where
  "save_verification_sessions sessions w = run_ops (write_json sessions SESSIONS_FILE) w"

text \<open>\<^verbatim>\<open>complete_verification_session\<close>; \<open>now\<close> is the text of
  \<^verbatim>\<open>datetime.now().isoformat()\<close> at the call.\<close>

definition complete_verification_session ::
  "json \<Rightarrow> json \<Rightarrow> string \<Rightarrow> world \<Rightarrow> py_error + (bool \<times> world)" where
  "complete_verification_session session_id verified now w =
     (let (sessions, w1) = load_verification_sessions w in
      case change_first session_id
             (\<lambda>session. session(''status'' \<mapsto> JStr ''completed'', ''verified'' \<mapsto> verified,
                                  ''completed_at'' \<mapsto> JStr now)) sessions of
        Inl e \<Rightarrow> Inl e
      | Inr None \<Rightarrow> Inr (False, w1)
      | Inr (Some sessions') \<Rightarrow> Inr (True, save_verification_sessions sessions' w1))"

text \<open>\<^verbatim>\<open>get_verification_session\<close>: the first session with the id, or
  \<^verbatim>\<open>None\<close>.\<close>

fun find_session :: "json \<Rightarrow> dict list \<Rightarrow> py_error + dict option" where
  "find_session session_id [] = Inr None"
| "find_session session_id (session # rest) =
     (case session ''id'' of
        None \<Rightarrow> Inl (KeyError ''id'')
      | Some v \<Rightarrow> if py_eq v session_id then Inr (Some session) else find_session session_id rest)"

definition get_verification_session ::
  "json \<Rightarrow> world \<Rightarrow> py_error + (dict option \<times> world)" where
  "get_verification_session session_id w =
     (let (sessions, w1) = load_verification_sessions w in
      case find_session session_id sessions of
        Inl e \<Rightarrow> Inl e
      | Inr found \<Rightarrow> Inr (found, w1))"

section \<open>Interrupted writes\<close>

text \<open>
  A write that is interrupted has taken some of its steps and not the others: the world
  after the first \<open>n\<close> steps.
\<close>

definition interrupted :: "nat \<Rightarrow> fs_op list \<Rightarrow> world \<Rightarrow> world" where
  "interrupted n steps w = run_ops (take n steps) w"

section \<open>Facts about the store\<close>

lemma upt_max_retries: "[0..<max_retries] = [0, 1, 2, 3, 4]"
  unfolding max_retries_def by (simp add: upt_rec)

lemma sleeps_append: "sleeps (xs @ ys) = sleeps xs @ sleeps ys"
  by (induction xs rule: sleeps.induct) auto

lemma events_run_ops: "events (run_ops as w) = events w @ map IO as"
  by (induction as arbitrary: w) (auto simp: run_op_def)

lemma sleeps_map_IO: "sleeps (map IO as) = []"
  by (induction as) auto

lemma sleeps_run_ops: "sleeps (events (run_ops as w)) = sleeps (events w)"
  by (simp add: events_run_ops sleeps_append sleeps_map_IO)

lemma files_run_ops: "files (run_ops as w) = fold apply_op as (files w)"
  by (induction as arbitrary: w) (auto simp: run_op_def)

lemma files_log_event: "files (log_event e w) = files w"
  by (simp add: log_event_def)

lemma events_log_event: "events (log_event e w) = events w @ [e]"
  by (simp add: log_event_def)

lemma files_failed_attempt:
  "files (run_ops (take (steps_done f) (save_steps d p)) w) p = files w p"
  by (cases f) (auto simp: run_op_def save_steps_def)

lemma files_full_attempt:
  "files (run_ops (save_steps d p) w) p = Some (Doc d)"
  by (auto simp: run_op_def save_steps_def)

lemma save_attempts_failing_prefix:
  assumes "\<forall>a \<in> set as. faults a \<noteq> None \<and> a < max_retries - 1"
  shows "\<exists>w'. save_attempts faults d p (as @ rest) w = save_attempts faults d p rest w' \<and>
           files w' p = files w p \<and>
           sleeps (events w') = sleeps (events w) @ replicate (length as) retry_delay"
  using assms
proof (induction as arbitrary: w)
  case Nil
  show ?case by (intro exI[of _ w]) simp
next
  case (Cons a as)
  from Cons.prems obtain f where f: "faults a = Some f" and a: "a < max_retries - 1"
    by auto
  define w1 where "w1 = log_event (Sleep retry_delay) (run_ops (take (steps_done f) (save_steps d p)) w)"
  have step: "save_attempts faults d p ((a # as) @ rest) w = save_attempts faults d p (as @ rest) w1"
    using f a by (simp add: w1_def)
  have fw1: "files w1 p = files w p"
    by (simp add: w1_def files_log_event files_failed_attempt)
  have sw1: "sleeps (events w1) = sleeps (events w) @ [retry_delay]"
    by (simp add: w1_def events_log_event sleeps_append sleeps_run_ops)
  from Cons.prems have "\<forall>a \<in> set as. faults a \<noteq> None \<and> a < max_retries - 1" by simp
  from Cons.IH[OF this, of w1] obtain w' where
    "save_attempts faults d p (as @ rest) w1 = save_attempts faults d p rest w'"
    "files w' p = files w1 p"
    "sleeps (events w') = sleeps (events w1) @ replicate (length as) retry_delay"
    by blast
  with step fw1 sw1 show ?case
    by (auto simp: replicate_append_same)
qed


lemma files_run_write_json: "files (run_ops (write_json d p) w) = (files w)(p \<mapsto> Doc d)"
  by (simp add: write_json_def run_op_def)

lemma py_eq_str: "py_eq v (JStr s) \<longleftrightarrow> v = JStr s"
  by (cases v) auto

lemma py_lt_num: "py_num u = Some x \<Longrightarrow> py_num v = Some y \<Longrightarrow> py_lt u v = Inr (x < y)"
  by (cases u) (auto split: if_splits)

lemma matches_status:
  "matches_filters p [(''status'', JStr s)] True =
     Inr (p ''status'' = None \<or> p ''status'' = Some (JStr s))"
  by (auto simp: py_eq_str split: option.splits)

lemma filter_properties_status:
  "filter_properties props [(''status'', JStr s)] =
     Inr (filter (\<lambda>p. p ''status'' = None \<or> p ''status'' = Some (JStr s)) props)"
  by (induction props) (simp_all add: matches_status del: matches_filters.simps)

lemma matches_price:
  assumes "price_of p = Some x" "py_num lo = Some a" "py_num hi = Some b"
  shows "matches_filters p [(''price_min'', lo), (''price_max'', hi)] True = Inr (a \<le> x \<and> x \<le> b)"
    and "matches_filters p [(''price_max'', hi), (''price_min'', lo)] True = Inr (a \<le> x \<and> x \<le> b)"
  using assms
  by (auto simp: price_of_def py_gt_def py_lt_num split: option.splits)

lemma filter_properties_price:
  assumes "\<forall>p \<in> set props. price_of p \<noteq> None" "py_num lo = Some a" "py_num hi = Some b"
  shows "filter_properties props [(''price_min'', lo), (''price_max'', hi)] =
           Inr (filter (in_price_range a b) props)"
    and "filter_properties props [(''price_max'', hi), (''price_min'', lo)] =
           Inr (filter (in_price_range a b) props)"
  using assms
  by (induction props) (auto simp: matches_price in_price_range_def simp del: matches_filters.simps)

lemma save_data_all_fail:
  assumes all: "\<forall>i<max_retries. faults i \<noteq> None"
  shows "fst (save_data faults d p w) = Some False"
    and "files (snd (save_data faults d p w)) p = files w p"
    and "sleeps (events (snd (save_data faults d p w))) =
           sleeps (events w) @ replicate (max_retries - 1) retry_delay"
proof -
  have pre: "\<forall>a \<in> set [0..<max_retries - 1]. faults a \<noteq> None \<and> a < max_retries - 1"
    using all by auto
  have split: "[0..<max_retries] = [0..<max_retries - 1] @ [max_retries - 1]"
    by (simp add: max_retries_def upt_rec)
  obtain w' where w': "save_attempts faults d p ([0..<max_retries - 1] @ [max_retries - 1]) w
        = save_attempts faults d p [max_retries - 1] w'"
      "files w' p = files w p"
      "sleeps (events w') = sleeps (events w) @ replicate (length [0..<max_retries - 1]) retry_delay"
    using save_attempts_failing_prefix[OF pre] by blast
  from all have "faults (max_retries - 1) \<noteq> None"
    by (simp add: max_retries_def)
  then obtain f where f: "faults (max_retries - 1) = Some f"
    by auto
  have res: "save_data faults d p w =
      (Some False, log_event (Print p) (run_ops (take (steps_done f) (save_steps d p)) w'))"
    unfolding save_data_def split w'(1) using f by simp
  show "fst (save_data faults d p w) = Some False" by (simp add: res)
  show "files (snd (save_data faults d p w)) p = files w p"
    by (simp add: res files_log_event files_failed_attempt w'(2))
  show "sleeps (events (snd (save_data faults d p w))) =
        sleeps (events w) @ replicate (max_retries - 1) retry_delay"
    by (simp add: res events_log_event sleeps_append sleeps_run_ops w'(3))
qed

lemma save_data_first_success:
  assumes k: "k < max_retries" and before: "\<forall>i<k. faults i \<noteq> None" and fk: "faults k = None"
  shows "fst (save_data faults d p w) = Some True"
    and "files (snd (save_data faults d p w)) p = Some (Doc d)"
    and "sleeps (events (snd (save_data faults d p w))) = sleeps (events w) @ replicate k retry_delay"
proof -
  have pre: "\<forall>a \<in> set [0..<k]. faults a \<noteq> None \<and> a < max_retries - 1"
    using before k by auto
  have split: "[0..<max_retries] = [0..<k] @ k # [Suc k..<max_retries]"
    using k by (metis le_add2 le_add_same_cancel2 less_imp_add_positive upt_add_eq_append upt_conv_Cons)
  obtain w' where w': "save_attempts faults d p ([0..<k] @ k # [Suc k..<max_retries]) w
        = save_attempts faults d p (k # [Suc k..<max_retries]) w'"
      "files w' p = files w p"
      "sleeps (events w') = sleeps (events w) @ replicate (length [0..<k]) retry_delay"
    using save_attempts_failing_prefix[OF pre] by blast
  have res: "save_data faults d p w = (Some True, run_ops (save_steps d p) w')"
    unfolding save_data_def split w'(1) using fk by simp
  show "fst (save_data faults d p w) = Some True" by (simp add: res)
  show "files (snd (save_data faults d p w)) p = Some (Doc d)"
    by (simp add: res files_full_attempt)
  show "sleeps (events (snd (save_data faults d p w))) = sleeps (events w) @ replicate k retry_delay"
    by (simp add: res sleeps_run_ops w'(3))
qed

lemma save_data_commits:
  assumes "\<exists>k<max_retries. faults k = None"
  shows "files (snd (save_data faults d p w)) p = Some (Doc d)"
proof -
  define P where "P = (\<lambda>k. k < max_retries \<and> faults k = None)"
  define k where "k = (LEAST k. P k)"
  from assms have ex: "\<exists>k. P k" unfolding P_def by blast
  then have Pk: "P k" unfolding k_def by (rule LeastI_ex)
  have before: "\<forall>i<k. faults i \<noteq> None"
  proof (intro allI impI)
    fix i assume ik: "i < k"
    then have "\<not> P i" unfolding k_def by (rule not_less_Least)
    moreover from ik Pk have "i < max_retries" unfolding P_def by simp
    ultimately show "faults i \<noteq> None" unfolding P_def by simp
  qed
  from Pk have k: "k < max_retries" and fk: "faults k = None" unfolding P_def by simp_all
  show ?thesis by (rule save_data_first_success(2) [OF k before fk])
qed

lemma load_data_stored: "files w p = Some (Doc d) \<Longrightarrow> load_data p w = (d, w)"
  by (simp add: load_data_def)

lemma setdefault_other: "k \<noteq> f \<Longrightarrow> setdefault k v d f = d f"
  by (simp add: setdefault_def split: option.splits)

lemma update_property_loop_at:
  assumes "\<forall>p \<in> set before. \<exists>v. p ''id'' = Some v \<and> \<not> py_eq v property_id"
    and "prop ''id'' = Some pid" and "py_eq pid property_id"
    and "prop ''owner_id'' = Some owner" and "prop ''created_at'' = Some created"
  shows "update_property_loop property_id property_data (before @ prop # after) =
     Inr (Some (before @
       ([''id'' \<mapsto> pid, ''owner_id'' \<mapsto> owner, ''created_at'' \<mapsto> created] ++ property_data)
       # after))"
  using assms by (induction before) auto

lemma load_users_stored: "files w USERS_FILE = Some (Doc d) \<Longrightarrow> load_users w = (d, w)"
  by (simp add: load_users_def)

lemma change_first_total:
  assumes "\<forall>r \<in> set rs. r ''id'' \<noteq> None"
  shows "\<exists>res. change_first the_id change rs = Inr res"
  using assms
proof (induction rs)
  case Nil
  then show ?case by simp
next
  case (Cons r rs)
  then obtain v where v: "r ''id'' = Some v" by auto
  from Cons obtain res where res: "change_first the_id change rs = Inr res" by auto
  show ?case using v res by (cases res) auto
qed

lemma change_first_no_match:
  assumes "\<forall>r \<in> set rs. \<exists>v. r ''id'' = Some v \<and> \<not> py_eq v the_id"
  shows "change_first the_id change rs = Inr None"
  using assms by (induction rs) auto

lemma events_save_users:
  "events (save_users users w) = events w @ [IO (OpenW USERS_FILE), IO (Dump USERS_FILE users)]"
  by (simp add: save_users_def write_json_def run_op_def)

lemma files_save_users: "files (save_users users w) USERS_FILE = Some (Doc users)"
  by (simp add: save_users_def files_run_write_json)

lemma load_sessions_stored:
  "files w SESSIONS_FILE = Some (Doc d) \<Longrightarrow> load_verification_sessions w = (d, w)"
  by (simp add: load_verification_sessions_def)

lemma files_save_sessions:
  "files (save_verification_sessions sessions w) SESSIONS_FILE = Some (Doc sessions)"
  by (simp add: save_verification_sessions_def files_run_write_json)

lemma find_session_exists:
  assumes "\<forall>s \<in> set sessions. s ''id'' \<noteq> None"
    and "\<exists>s \<in> set sessions. \<exists>v. s ''id'' = Some v \<and> py_eq v session_id"
  shows "\<exists>s. find_session session_id sessions = Inr (Some s)"
  using assms
proof (induction sessions)
  case Nil
  then show ?case by simp
next
  case (Cons a sessions)
  from Cons.prems(1) obtain y where y: "a ''id'' = Some y" by auto
  show ?case
  proof (cases "py_eq y session_id")
    case True
    with y show ?thesis by simp
  next
    case False
    with Cons.prems y have "\<exists>s \<in> set sessions. \<exists>v. s ''id'' = Some v \<and> py_eq v session_id"
      by auto
    moreover from Cons.prems(1) have "\<forall>s \<in> set sessions. s ''id'' \<noteq> None" by simp
    ultimately have "\<exists>s. find_session session_id sessions = Inr (Some s)"
      by (rule Cons.IH [rotated])
    with False y show ?thesis by simp
  qed
qed

lemma change_first_found:
  assumes "find_session the_id rs = Inr (Some r)"
    and "\<And>x. change x ''id'' = x ''id''"
  shows "\<exists>rs'. change_first the_id change rs = Inr (Some rs') \<and>
           find_session the_id rs' = Inr (Some (change r))"
  using assms(1)
proof (induction rs)
  case Nil
  then show ?case by simp
next
  case (Cons a rs)
  from Cons.prems obtain v where v: "a ''id'' = Some v"
    by (cases "a ''id''") auto
  show ?case
  proof (cases "py_eq v the_id")
    case True
    with Cons.prems v have "r = a" by simp
    with True v assms(2) [of a] show ?thesis by simp
  next
    case False
    with Cons.prems v have "find_session the_id rs = Inr (Some r)" by simp
    from Cons.IH [OF this] obtain rs' where
      "change_first the_id change rs = Inr (Some rs')"
      "find_session the_id rs' = Inr (Some (change r))" by blast
    with False v show ?thesis by simp
  qed
qed

lemma verify_user_loop_none:
  assumes "\<forall>u \<in> set users. u ''email'' \<noteq> None \<and> u ''password_hash'' \<noteq> None"
    and "\<not> (\<exists>u \<in> set users. u ''email'' = Some (JStr email) \<and>
              u ''password_hash'' = Some (JStr ph))"
  shows "verify_user_loop key now email ph users = Inr None"
  using assms by (induction users) (auto simp: py_eq_str)

lemma verify_user_loop_some:
  assumes "\<forall>u \<in> set users. u ''id'' \<noteq> None \<and> u ''email'' \<noteq> None \<and> u ''password_hash'' \<noteq> None"
    and "\<exists>u \<in> set users. u ''email'' = Some (JStr email) \<and> u ''password_hash'' = Some (JStr ph)"
  shows "\<exists>u uid. u \<in> set users \<and> u ''id'' = Some uid \<and>
           verify_user_loop key now email ph users =
             Inr (Some (jwt_encode [''user_id'' \<mapsto> uid, ''email'' \<mapsto> JStr email,
                                    ''exp'' \<mapsto> JFloat (now + 24 * 3600)] key, u))"
  using assms
proof (induction users)
  case Nil
  then show ?case by simp
next
  case (Cons a users)
  from Cons.prems(1) obtain i e h where a: "a ''id'' = Some i" "a ''email'' = Some e"
    "a ''password_hash'' = Some h" by auto
  show ?case
  proof (cases "e = JStr email \<and> h = JStr ph")
    case True
    with a show ?thesis
      by (intro exI [of _ a] exI [of _ i]) (auto simp: py_eq_str jwt_encode_def fun_eq_iff)
  next
    case False
    with Cons.prems(2) a have ex: "\<exists>u \<in> set users. u ''email'' = Some (JStr email) \<and>
        u ''password_hash'' = Some (JStr ph)" by auto
    from Cons.prems(1) have wf: "\<forall>u \<in> set users. u ''id'' \<noteq> None \<and> u ''email'' \<noteq> None \<and>
        u ''password_hash'' \<noteq> None" by simp
    from Cons.IH [OF wf ex] obtain u uid where u: "u \<in> set users" "u ''id'' = Some uid"
      "verify_user_loop key now email ph users =
         Inr (Some (jwt_encode [''user_id'' \<mapsto> uid, ''email'' \<mapsto> JStr email,
                                ''exp'' \<mapsto> JFloat (now + 24 * 3600)] key, u))" by blast
    have "verify_user_loop key now email ph (a # users) = verify_user_loop key now email ph users"
      using False a by (auto simp: py_eq_str)
    then have step: "verify_user_loop key now email ph (a # users) =
         Inr (Some (jwt_encode [''user_id'' \<mapsto> uid, ''email'' \<mapsto> JStr email,
                                ''exp'' \<mapsto> JFloat (now + 24 * 3600)] key, u))"
      by (simp only: u(3))
    from u(1) have mem: "u \<in> set (a # users)" by simp
    show ?thesis
      by (rule exI [of _ u], rule exI [of _ uid]) (intro conjI mem u(2) step)
  qed
qed

lemma verify_token_issued:
  "verify_token key t (jwt_encode [''user_id'' \<mapsto> uid, ''email'' \<mapsto> e,
                                   ''exp'' \<mapsto> JFloat x] key) =
     (if x \<le> t then Inr (False, None, Inr ''Token expired'')
      else Inr (True, Some uid, Inl [''user_id'' \<mapsto> uid, ''email'' \<mapsto> e, ''exp'' \<mapsto> JFloat x]))"
  by (simp add: verify_token_def jwt_decode_def jwt_encode_def)

lemma verify_token_expired:
  assumes "payload ''exp'' = Some e" "py_num e = Some x" "x < t"
  shows "verify_token key t (Signed payload k) = Inr (False, None, Inr ''Token expired'') \<or>
         verify_token key t (Signed payload k) = Inr (False, None, Inr ''Invalid token'')"
  using assms by (simp add: verify_token_def jwt_decode_def)

lemma take_save_steps:
  "take n (save_steps d p) =
     (if n = 0 then []
      else if n = 1 then [OpenW (p @ ''.tmp'')]
      else if n = 2 then [OpenW (p @ ''.tmp''), Dump (p @ ''.tmp'') d]
      else save_steps d p)"
  by (cases n rule: nat.exhaust; simp add: save_steps_def take_Cons split: nat.splits)

lemma interrupted_save_target:
  "files (interrupted n (save_steps d p) w) p =
     (if n < 3 then files w p else Some (Doc d))"
  unfolding interrupted_def take_save_steps
  by (auto simp: save_steps_def run_op_def)

lemma save_attempts_target:
  "files (snd (save_attempts faults d p as w)) p = files w p \<or>
   files (snd (save_attempts faults d p as w)) p = Some (Doc d)"
proof (induction as arbitrary: w)
  case Nil
  then show ?case by simp
next
  case (Cons a as)
  show ?case
  proof (cases "faults a")
    case None
    then show ?thesis by (simp add: files_full_attempt)
  next
    case (Some f)
    define w' where
      "w' = log_event (Sleep retry_delay) (run_ops (take (steps_done f) (save_steps d p)) w)"
    have same: "files w' p = files w p"
      by (simp add: w'_def files_log_event files_failed_attempt)
    show ?thesis
    proof (cases "a < max_retries - 1")
      case True
      with Some have "save_attempts faults d p (a # as) w = save_attempts faults d p as w'"
        by (simp add: w'_def)
      with Cons.IH [of w'] same show ?thesis by simp
    next
      case False
      with Some show ?thesis by (simp add: files_log_event files_failed_attempt)
    qed
  qed
qed

section \<open>Loading a collection\<close>

text \<open>
  Claim C9. The load operation returns the persisted collection, world unchanged, when
  the file exists and parses; it returns the empty sequence when the file is absent or
  unparsable; and in the absent case the file exists afterwards and holds the empty
  collection. The same holds of \<^verbatim>\<open>load_users\<close> on the users file.
\<close>

theorem load_data_spec:
  "(files w p = Some (Doc d) \<longrightarrow> load_data p w = (d, w)) \<and>
   (files w p = None \<or> files w p = Some Unparsable \<longrightarrow> fst (load_data p w) = []) \<and>
   (files w p = None \<longrightarrow> files (snd (load_data p w)) p = Some (Doc [])) \<and>
   (files w USERS_FILE = Some (Doc d) \<longrightarrow> load_users w = (d, w)) \<and>
   (files w USERS_FILE = None \<or> files w USERS_FILE = Some Unparsable \<longrightarrow>
      fst (load_users w) = []) \<and>
   (files w USERS_FILE = None \<longrightarrow> files (snd (load_users w)) USERS_FILE = Some (Doc []))"
  by (auto simp: load_data_def load_users_def files_run_write_json)

theorem load_data_spec_witness:
  "load_data ''data/reviews.json''
     \<lparr>files = [''data/reviews.json'' \<mapsto> Doc [[''id'' \<mapsto> JStr ''r1'']]], events = []\<rparr>
     = ([[''id'' \<mapsto> JStr ''r1'']],
        \<lparr>files = [''data/reviews.json'' \<mapsto> Doc [[''id'' \<mapsto> JStr ''r1'']]], events = []\<rparr>) \<and>
   fst (load_data ''data/reviews.json'' \<lparr>files = Map.empty, events = []\<rparr>) = [] \<and>
   files (snd (load_data ''data/reviews.json'' \<lparr>files = Map.empty, events = []\<rparr>))
     ''data/reviews.json'' = Some (Doc [])"
  using load_data_spec [of "\<lparr>files = [''data/reviews.json'' \<mapsto> Doc [[''id'' \<mapsto> JStr ''r1'']]], events = []\<rparr>"
      "''data/reviews.json''" "[[''id'' \<mapsto> JStr ''r1'']]"]
    load_data_spec [of "\<lparr>files = Map.empty, events = []\<rparr>" "''data/reviews.json''" "[]"]
  by simp

section \<open>Saving with retries\<close>

text \<open>
  Claim C5. The bound is 5 attempts and the delay 0.5 seconds. When every attempt
  fails, \<^verbatim>\<open>save_data\<close> returns \<^verbatim>\<open>False\<close> (it returns: no exception leaves it),
  having slept the fixed delay once between consecutive attempts, four times in all,
  and the target file is as it was. When attempt \<open>k\<close> is the first to succeed it
  returns \<^verbatim>\<open>True\<close>, the target holds the collection, and it has slept \<open>k\<close> times.
\<close>

theorem save_data_retry_spec:
  "max_retries = 5 \<and> retry_delay = 1 / 2 \<and>
   ((\<forall>i<max_retries. faults i \<noteq> None) \<longrightarrow>
      fst (save_data faults d p w) = Some False \<and>
      files (snd (save_data faults d p w)) p = files w p \<and>
      sleeps (events (snd (save_data faults d p w))) =
        sleeps (events w) @ replicate (max_retries - 1) retry_delay) \<and>
   (\<forall>k<max_retries. (\<forall>i<k. faults i \<noteq> None) \<and> faults k = None \<longrightarrow>
      fst (save_data faults d p w) = Some True \<and>
      files (snd (save_data faults d p w)) p = Some (Doc d) \<and>
      sleeps (events (snd (save_data faults d p w))) =
        sleeps (events w) @ replicate k retry_delay)"
proof (intro conjI impI allI)
  show "max_retries = 5" by (simp add: max_retries_def)
  show "retry_delay = 1 / 2" by (simp add: retry_delay_def)
next
  assume "\<forall>i<max_retries. faults i \<noteq> None"
  then show "fst (save_data faults d p w) = Some False"
    and "files (snd (save_data faults d p w)) p = files w p"
    and "sleeps (events (snd (save_data faults d p w))) =
           sleeps (events w) @ replicate (max_retries - 1) retry_delay"
    by (rule save_data_all_fail)+
next
  fix k
  assume "k < max_retries" and "(\<forall>i<k. faults i \<noteq> None) \<and> faults k = None"
  then have k: "k < max_retries" "\<forall>i<k. faults i \<noteq> None" "faults k = None"
    by simp_all
  show "fst (save_data faults d p w) = Some True"
    by (rule save_data_first_success [OF k])
  show "files (snd (save_data faults d p w)) p = Some (Doc d)"
    by (rule save_data_first_success [OF k])
  show "sleeps (events (snd (save_data faults d p w))) = sleeps (events w) @ replicate k retry_delay"
    by (rule save_data_first_success [OF k])
qed

theorem save_data_retry_spec_witness:
  "fst (save_data (\<lambda>n. Some OpenFails) [] ''data/users.json'' \<lparr>files = Map.empty, events = []\<rparr>)
     = Some False \<and>
   sleeps (events (snd (save_data (\<lambda>n. Some OpenFails) [] ''data/users.json''
     \<lparr>files = Map.empty, events = []\<rparr>))) = [1 / 2, 1 / 2, 1 / 2, 1 / 2] \<and>
   fst (save_data (\<lambda>n. if n < 2 then Some DumpFails else None) [] ''data/users.json''
     \<lparr>files = Map.empty, events = []\<rparr>) = Some True \<and>
   sleeps (events (snd (save_data (\<lambda>n. if n < 2 then Some DumpFails else None) []
     ''data/users.json'' \<lparr>files = Map.empty, events = []\<rparr>))) = [1 / 2, 1 / 2]"
proof -
  let ?w = "\<lparr>files = Map.empty, events = []\<rparr>"
  let ?g = "\<lambda>n::nat. if n < 2 then Some DumpFails else None"
  have a: "\<forall>i<max_retries. (\<lambda>n. Some OpenFails) i \<noteq> None" by simp
  have b: "(2::nat) < max_retries" by (simp add: max_retries_def)
  have c: "(\<forall>i<2. ?g i \<noteq> None) \<and> ?g 2 = None" by simp
  have r4: "replicate (max_retries - 1) retry_delay = [1 / 2, 1 / 2, 1 / 2, 1 / 2]"
    by (simp add: max_retries_def retry_delay_def numeral_eq_Suc)
  have r2: "replicate 2 retry_delay = [1 / 2, 1 / 2]"
    by (simp add: retry_delay_def numeral_eq_Suc)
  note A = save_data_retry_spec [of "\<lambda>n. Some OpenFails" "[]" "''data/users.json''" ?w,
      THEN conjunct2, THEN conjunct2, THEN conjunct1, THEN mp, OF a]
  have 1: "fst (save_data (\<lambda>n. Some OpenFails) [] ''data/users.json'' ?w) = Some False"
    and 2: "sleeps (events (snd (save_data (\<lambda>n. Some OpenFails) [] ''data/users.json'' ?w)))
       = [1 / 2, 1 / 2, 1 / 2, 1 / 2]"
    using A r4 by simp_all
  note B = save_data_retry_spec [of ?g "[]" "''data/users.json''" ?w,
      THEN conjunct2, THEN conjunct2, THEN conjunct2, THEN spec, THEN mp, OF b, THEN mp, OF c]
  have 3: "fst (save_data ?g [] ''data/users.json'' ?w) = Some True"
    and 4: "sleeps (events (snd (save_data ?g [] ''data/users.json'' ?w))) = [1 / 2, 1 / 2]"
    using B r2 by simp_all
  from 1 2 3 4 show ?thesis by simp
qed

section \<open>Listing properties\<close>

text \<open>
  Claim C1, as amended. For every stored collection of properties, the property list
  operation with the filter \<^verbatim>\<open>{status: "active"}\<close> returns, in stored order, exactly
  the stored records that have no \<^verbatim>\<open>status\<close> field or whose \<^verbatim>\<open>status\<close> field
  equals \<^verbatim>\<open>"active"\<close>: the test \<^verbatim>\<open>key in prop and prop[key] != value\<close> lets a
  record without the field pass.
\<close>

theorem get_properties_status_active:
  assumes "files w PROPERTIES_FILE = Some (Doc props)"
  shows "get_properties [(''status'', JStr ''active'')] w =
     Inr (filter (\<lambda>p. p ''status'' = None \<or> p ''status'' = Some (JStr ''active'')) props, w)"
  using assms by (simp add: get_properties_def load_data_def filter_properties_status)

theorem get_properties_status_active_witness:
  "get_properties [(''status'', JStr ''active'')]
     \<lparr>files = [PROPERTIES_FILE \<mapsto> Doc [[''id'' \<mapsto> JStr ''p1'', ''status'' \<mapsto> JStr ''active''],
                                         [''id'' \<mapsto> JStr ''p2'', ''status'' \<mapsto> JStr ''pending''],
                                         [''id'' \<mapsto> JStr ''p3'']]], events = []\<rparr> =
   Inr ([[''id'' \<mapsto> JStr ''p1'', ''status'' \<mapsto> JStr ''active''], [''id'' \<mapsto> JStr ''p3'']],
     \<lparr>files = [PROPERTIES_FILE \<mapsto> Doc [[''id'' \<mapsto> JStr ''p1'', ''status'' \<mapsto> JStr ''active''],
                                         [''id'' \<mapsto> JStr ''p2'', ''status'' \<mapsto> JStr ''pending''],
                                         [''id'' \<mapsto> JStr ''p3'']]], events = []\<rparr>)"
  using get_properties_status_active [of
     "\<lparr>files = [PROPERTIES_FILE \<mapsto> Doc [[''id'' \<mapsto> JStr ''p1'', ''status'' \<mapsto> JStr ''active''],
                                         [''id'' \<mapsto> JStr ''p2'', ''status'' \<mapsto> JStr ''pending''],
                                         [''id'' \<mapsto> JStr ''p3'']]], events = []\<rparr>"
     "[[''id'' \<mapsto> JStr ''p1'', ''status'' \<mapsto> JStr ''active''],
                                         [''id'' \<mapsto> JStr ''p2'', ''status'' \<mapsto> JStr ''pending''],
                                         [''id'' \<mapsto> JStr ''p3'']]"]
  by simp

text \<open>
  The claim as stated fails: a stored record with no \<^verbatim>\<open>status\<close> field is returned.
\<close>

theorem get_properties_status_counterexample:
  "get_properties [(''status'', JStr ''active'')]
     \<lparr>files = [PROPERTIES_FILE \<mapsto> Doc [[''id'' \<mapsto> JStr ''p3'']]], events = []\<rparr> =
   Inr ([[''id'' \<mapsto> JStr ''p3'']],
     \<lparr>files = [PROPERTIES_FILE \<mapsto> Doc [[''id'' \<mapsto> JStr ''p3'']]], events = []\<rparr>) \<and>
   [''id'' \<mapsto> JStr ''p3''] ''status'' = None"
  by (simp add: get_properties_def load_data_def)

text \<open>
  Claim C6. When every stored property has a numeric price per day and the bounds are
  numbers, the list operation with the filters \<^verbatim>\<open>price_min\<close> and \<^verbatim>\<open>price_max\<close>
  (in either order) returns exactly the stored records whose price lies between the
  bounds, both included. The witness is the instance of the claim: a property with
  price 5000 is returned for the range 1000 to 6000 and not for 6000 to 10000.
\<close>

theorem get_properties_price_range:
  assumes "files w PROPERTIES_FILE = Some (Doc props)"
    and "\<forall>p \<in> set props. price_of p \<noteq> None"
    and "py_num lo = Some a" and "py_num hi = Some b"
  shows "get_properties [(''price_min'', lo), (''price_max'', hi)] w =
           Inr (filter (in_price_range a b) props, w) \<and>
         get_properties [(''price_max'', hi), (''price_min'', lo)] w =
           Inr (filter (in_price_range a b) props, w)"
  using assms
  by (simp add: get_properties_def load_data_def filter_properties_price)

theorem get_properties_price_range_witness:
  "get_properties [(''price_min'', JInt 1000), (''price_max'', JInt 6000)]
     \<lparr>files = [PROPERTIES_FILE \<mapsto> Doc [[''id'' \<mapsto> JStr ''p1'', ''price_per_day'' \<mapsto> JInt 5000,
                                          ''capacity'' \<mapsto> JInt 4]]], events = []\<rparr> =
   Inr ([[''id'' \<mapsto> JStr ''p1'', ''price_per_day'' \<mapsto> JInt 5000, ''capacity'' \<mapsto> JInt 4]],
     \<lparr>files = [PROPERTIES_FILE \<mapsto> Doc [[''id'' \<mapsto> JStr ''p1'', ''price_per_day'' \<mapsto> JInt 5000,
                                          ''capacity'' \<mapsto> JInt 4]]], events = []\<rparr>) \<and>
   get_properties [(''price_min'', JInt 6000), (''price_max'', JInt 10000)]
     \<lparr>files = [PROPERTIES_FILE \<mapsto> Doc [[''id'' \<mapsto> JStr ''p1'', ''price_per_day'' \<mapsto> JInt 5000,
                                          ''capacity'' \<mapsto> JInt 4]]], events = []\<rparr> =
   Inr ([],
     \<lparr>files = [PROPERTIES_FILE \<mapsto> Doc [[''id'' \<mapsto> JStr ''p1'', ''price_per_day'' \<mapsto> JInt 5000,
                                          ''capacity'' \<mapsto> JInt 4]]], events = []\<rparr>)"
proof -
  let ?p = "[''id'' \<mapsto> JStr ''p1'', ''price_per_day'' \<mapsto> JInt 5000, ''capacity'' \<mapsto> JInt 4]"
  let ?w = "\<lparr>files = [PROPERTIES_FILE \<mapsto> Doc [?p]], events = []\<rparr>"
  have stored: "files ?w PROPERTIES_FILE = Some (Doc [?p])" by simp
  have priced: "\<forall>p \<in> set [?p]. price_of p \<noteq> None" by (simp add: price_of_def)
  have 1: "py_num (JInt 1000) = Some 1000" and 2: "py_num (JInt 6000) = Some 6000"
    and 3: "py_num (JInt 10000) = Some 10000" by simp_all
  show ?thesis
    using get_properties_price_range [OF stored priced 1 2]
      get_properties_price_range [OF stored priced 2 3]
    by (simp add: in_price_range_def price_of_def)
qed

section \<open>Creating a review\<close>

text \<open>
  Claim C7, as amended. Every review record stored through the review creation
  operation has a \<^verbatim>\<open>rating\<close> field, and it holds the value the caller passed,
  unchanged: the operation stores the record (after the stored ones, with the defaults
  \<^verbatim>\<open>created_at\<close> and \<^verbatim>\<open>verified\<close> filled in) exactly when the five required
  fields are present, and rejects it with \<^verbatim>\<open>False\<close>, storing nothing, otherwise. The
  rating is not checked to be an integer from 1 to 5. The premises: the reviews file
  holds a collection and one of the five write attempts succeeds.
\<close>

theorem create_review_spec:
  assumes stored: "files w REVIEWS_FILE = Some (Doc reviews)"
    and saved: "\<exists>k<max_retries. faults k = None"
  shows "(list_all (\<lambda>field. review_data field \<noteq> None) review_required_fields \<longrightarrow>
           fst (create_review faults now review_data w) = True \<and>
           files (snd (create_review faults now review_data w)) REVIEWS_FILE =
             Some (Doc (reviews @
               [setdefault ''verified'' (JBool False)
                  (setdefault ''created_at'' (JStr now) review_data)])) \<and>
           setdefault ''verified'' (JBool False)
             (setdefault ''created_at'' (JStr now) review_data) ''rating'' = review_data ''rating'' \<and>
           review_data ''rating'' \<noteq> None) \<and>
         (\<not> list_all (\<lambda>field. review_data field \<noteq> None) review_required_fields \<longrightarrow>
           create_review faults now review_data w = (False, w))"
proof (intro conjI impI)
  assume req: "list_all (\<lambda>field. review_data field \<noteq> None) review_required_fields"
  show "fst (create_review faults now review_data w) = True"
    using req by (simp add: create_review_def load_data_stored [OF stored])
  show "files (snd (create_review faults now review_data w)) REVIEWS_FILE =
             Some (Doc (reviews @
               [setdefault ''verified'' (JBool False)
                  (setdefault ''created_at'' (JStr now) review_data)]))"
    using req by (simp add: create_review_def load_data_stored [OF stored] save_data_commits [OF saved])
  show "setdefault ''verified'' (JBool False)
             (setdefault ''created_at'' (JStr now) review_data) ''rating'' = review_data ''rating''"
    by (simp add: setdefault_other)
  show "review_data ''rating'' \<noteq> None"
    using req by (simp add: review_required_fields_def)
next
  assume "\<not> list_all (\<lambda>field. review_data field \<noteq> None) review_required_fields"
  then show "create_review faults now review_data w = (False, w)"
    by (simp add: create_review_def load_data_stored [OF stored])
qed

text \<open>The claim as stated fails: a review with rating 7 is accepted and stored.\<close>

theorem create_review_counterexample:
  "fst (create_review (\<lambda>n. None) ''2024-01-01 10:00:00''
      [''id'' \<mapsto> JStr ''r1'', ''property_id'' \<mapsto> JStr ''p1'', ''user_id'' \<mapsto> JStr ''u1'',
       ''rating'' \<mapsto> JInt 7, ''comment'' \<mapsto> JStr ''fine'']
      \<lparr>files = [REVIEWS_FILE \<mapsto> Doc []], events = []\<rparr>) = True \<and>
   files (snd (create_review (\<lambda>n. None) ''2024-01-01 10:00:00''
      [''id'' \<mapsto> JStr ''r1'', ''property_id'' \<mapsto> JStr ''p1'', ''user_id'' \<mapsto> JStr ''u1'',
       ''rating'' \<mapsto> JInt 7, ''comment'' \<mapsto> JStr ''fine'']
      \<lparr>files = [REVIEWS_FILE \<mapsto> Doc []], events = []\<rparr>)) REVIEWS_FILE =
     Some (Doc [[''id'' \<mapsto> JStr ''r1'', ''property_id'' \<mapsto> JStr ''p1'',
                 ''user_id'' \<mapsto> JStr ''u1'', ''rating'' \<mapsto> JInt 7, ''comment'' \<mapsto> JStr ''fine'',
                 ''created_at'' \<mapsto> JStr ''2024-01-01 10:00:00'', ''verified'' \<mapsto> JBool False]])"
  by (simp add: create_review_def load_data_def review_required_fields_def setdefault_def
      save_data_def upt_max_retries save_steps_def run_op_def REVIEWS_FILE_def Let_def)

theorem create_review_spec_witness:
  "fst (create_review (\<lambda>n. None) ''2024-01-01 10:00:00''
      [''id'' \<mapsto> JStr ''r1'', ''property_id'' \<mapsto> JStr ''p1'', ''user_id'' \<mapsto> JStr ''u1'',
       ''rating'' \<mapsto> JInt 4, ''comment'' \<mapsto> JStr ''fine'']
      \<lparr>files = [REVIEWS_FILE \<mapsto> Doc []], events = []\<rparr>) = True \<and>
   create_review (\<lambda>n. None) ''2024-01-01 10:00:00''
      [''id'' \<mapsto> JStr ''r2'', ''property_id'' \<mapsto> JStr ''p1'', ''user_id'' \<mapsto> JStr ''u1'',
       ''comment'' \<mapsto> JStr ''no rating'']
      \<lparr>files = [REVIEWS_FILE \<mapsto> Doc []], events = []\<rparr> =
     (False, \<lparr>files = [REVIEWS_FILE \<mapsto> Doc []], events = []\<rparr>)"
proof -
  let ?w = "\<lparr>files = [REVIEWS_FILE \<mapsto> Doc []], events = []\<rparr>"
  have stored: "files ?w REVIEWS_FILE = Some (Doc [])" by simp
  have saved: "\<exists>k<max_retries. (\<lambda>n::nat. None :: fault option) k = None"
    by (intro exI [of _ 0]) (simp add: max_retries_def)
  show ?thesis
    using create_review_spec [OF stored saved, where now = "''2024-01-01 10:00:00''"
        and review_data = "[''id'' \<mapsto> JStr ''r1'', ''property_id'' \<mapsto> JStr ''p1'', ''user_id'' \<mapsto> JStr ''u1'',
          ''rating'' \<mapsto> JInt 4, ''comment'' \<mapsto> JStr ''fine'']"]
      create_review_spec [OF stored saved, where now = "''2024-01-01 10:00:00''"
        and review_data = "[''id'' \<mapsto> JStr ''r2'', ''property_id'' \<mapsto> JStr ''p1'',
          ''user_id'' \<mapsto> JStr ''u1'', ''comment'' \<mapsto> JStr ''no rating'']"]
    by (simp add: review_required_fields_def)
qed

section \<open>Updating a property\<close>

text \<open>
  Claim C2, as amended. For every existing property record and every partial update
  mapping, the property update operation replaces the stored record by the partial
  data laid over the record's \<^verbatim>\<open>id\<close>, \<^verbatim>\<open>owner_id\<close> and \<^verbatim>\<open>created_at\<close>: each of
  these three fields keeps its previous value when the partial data does not mention
  it, and every other field has afterwards exactly the value the partial data gives
  it, so a field that the partial data does not mention is dropped from the record.
  The other records stay as they were. The premises: the record is the first one with
  the given id, it has the three fields, the records before it have an id, and one of
  the five write attempts succeeds.
\<close>

theorem update_property_spec:
  assumes stored: "files w PROPERTIES_FILE = Some (Doc (before @ prop # after))"
    and before: "\<forall>p \<in> set before. \<exists>v. p ''id'' = Some v \<and> \<not> py_eq v property_id"
    and found: "\<exists>v. prop ''id'' = Some v \<and> py_eq v property_id"
    and owner: "prop ''owner_id'' \<noteq> None"
    and created: "prop ''created_at'' \<noteq> None"
    and saved: "\<exists>k<max_retries. faults k = None"
  shows "\<exists>new w'.
      update_property faults property_id property_data w = Inr (True, w') \<and>
      files w' PROPERTIES_FILE = Some (Doc (before @ new # after)) \<and>
      (\<forall>k. k \<noteq> ''id'' \<and> k \<noteq> ''owner_id'' \<and> k \<noteq> ''created_at'' \<longrightarrow> new k = property_data k) \<and>
      (\<forall>k. (k = ''id'' \<or> k = ''owner_id'' \<or> k = ''created_at'') \<and> property_data k = None
           \<longrightarrow> new k = prop k)"
proof -
  from found obtain pid where pid: "prop ''id'' = Some pid" "py_eq pid property_id" by blast
  from owner obtain ow where ow: "prop ''owner_id'' = Some ow" by blast
  from created obtain cr where cr: "prop ''created_at'' = Some cr" by blast
  define new where
    "new = [''id'' \<mapsto> pid, ''owner_id'' \<mapsto> ow, ''created_at'' \<mapsto> cr] ++ property_data"
  define w' where "w' = snd (save_data faults (before @ new # after) PROPERTIES_FILE w)"
  have loop: "update_property_loop property_id property_data (before @ prop # after) =
      Inr (Some (before @ new # after))"
    unfolding new_def by (rule update_property_loop_at [OF before pid ow cr])
  have res: "update_property faults property_id property_data w = Inr (True, w')"
    by (simp add: update_property_def load_data_stored [OF stored] loop w'_def)
  have committed: "files w' PROPERTIES_FILE = Some (Doc (before @ new # after))"
    unfolding w'_def by (rule save_data_commits [OF saved])
  have other: "\<forall>k. k \<noteq> ''id'' \<and> k \<noteq> ''owner_id'' \<and> k \<noteq> ''created_at'' \<longrightarrow> new k = property_data k"
    by (simp add: new_def map_add_def split: option.splits)
  have kept: "\<forall>k. (k = ''id'' \<or> k = ''owner_id'' \<or> k = ''created_at'') \<and> property_data k = None
           \<longrightarrow> new k = prop k"
    using pid ow cr by (auto simp: new_def map_add_def)
  from res committed other kept show ?thesis by blast
qed

theorem update_property_spec_witness:
  "\<exists>new w'.
     update_property (\<lambda>n. None) (JStr ''p1'') [''status'' \<mapsto> JStr ''active'']
       \<lparr>files = [PROPERTIES_FILE \<mapsto> Doc [[''id'' \<mapsto> JStr ''p1'', ''owner_id'' \<mapsto> JStr ''u1'',
           ''created_at'' \<mapsto> JStr ''2024-01-01'', ''title'' \<mapsto> JStr ''Villa'']]], events = []\<rparr>
       = Inr (True, w') \<and>
     files w' PROPERTIES_FILE = Some (Doc [new]) \<and>
     new ''status'' = Some (JStr ''active'') \<and> new ''title'' = None \<and>
     new ''created_at'' = Some (JStr ''2024-01-01'') \<and> new ''id'' = Some (JStr ''p1'')"
proof -
  let ?p = "[''id'' \<mapsto> JStr ''p1'', ''owner_id'' \<mapsto> JStr ''u1'',
           ''created_at'' \<mapsto> JStr ''2024-01-01'', ''title'' \<mapsto> JStr ''Villa'']"
  let ?w = "\<lparr>files = [PROPERTIES_FILE \<mapsto> Doc [?p]], events = []\<rparr>"
  have stored: "files ?w PROPERTIES_FILE = Some (Doc ([] @ ?p # []))" by simp
  have before: "\<forall>p \<in> set []. \<exists>v. p ''id'' = Some v \<and> \<not> py_eq v (JStr ''p1'')" by simp
  have found: "\<exists>v. ?p ''id'' = Some v \<and> py_eq v (JStr ''p1'')" by simp
  have owner: "?p ''owner_id'' \<noteq> None" and created: "?p ''created_at'' \<noteq> None" by simp_all
  have saved: "\<exists>k<max_retries. (\<lambda>n::nat. None :: fault option) k = None"
    by (intro exI [of _ 0]) (simp add: max_retries_def)
  note T = update_property_spec [OF stored before found owner created saved,
      of "[''status'' \<mapsto> JStr ''active'']"]
  show ?thesis
  proof (rule exE [OF T])
    fix new
    assume "\<exists>w'. update_property (\<lambda>n. None) (JStr ''p1'') [''status'' \<mapsto> JStr ''active''] ?w
        = Inr (True, w') \<and>
      files w' PROPERTIES_FILE = Some (Doc ([] @ new # [])) \<and>
      (\<forall>k. k \<noteq> ''id'' \<and> k \<noteq> ''owner_id'' \<and> k \<noteq> ''created_at'' \<longrightarrow>
        new k = [''status'' \<mapsto> JStr ''active''] k) \<and>
      (\<forall>k. (k = ''id'' \<or> k = ''owner_id'' \<or> k = ''created_at'') \<and>
        [''status'' \<mapsto> JStr ''active''] k = None \<longrightarrow> new k = ?p k)"
    then obtain w' where
      r: "update_property (\<lambda>n. None) (JStr ''p1'') [''status'' \<mapsto> JStr ''active''] ?w
        = Inr (True, w')"
      and f: "files w' PROPERTIES_FILE = Some (Doc ([] @ new # []))"
      and o: "\<forall>k. k \<noteq> ''id'' \<and> k \<noteq> ''owner_id'' \<and> k \<noteq> ''created_at'' \<longrightarrow>
        new k = [''status'' \<mapsto> JStr ''active''] k"
      and k: "\<forall>k. (k = ''id'' \<or> k = ''owner_id'' \<or> k = ''created_at'') \<and>
        [''status'' \<mapsto> JStr ''active''] k = None \<longrightarrow> new k = ?p k"
      by (elim exE conjE)
    have 1: "new ''status'' = Some (JStr ''active'')" using o [THEN spec, of "''status''"] by simp
    have 2: "new ''title'' = None" using o [THEN spec, of "''title''"] by simp
    have 3: "new ''created_at'' = Some (JStr ''2024-01-01'')"
      using k [THEN spec, of "''created_at''"] by simp
    have 4: "new ''id'' = Some (JStr ''p1'')" using k [THEN spec, of "''id''"] by simp
    from f have f': "files w' PROPERTIES_FILE = Some (Doc [new])" by simp
    show ?thesis
      by (rule exI [of _ new], rule exI [of _ w']) (intro conjI r f' 1 2 3 4)
  qed
qed

text \<open>
  The claim as stated fails: the stored property has a title, the partial data
  mentions only the status, and the title is gone after the update.
\<close>

theorem update_property_counterexample:
  "(case update_property (\<lambda>n. None) (JStr ''p1'') [''status'' \<mapsto> JStr ''active'']
       \<lparr>files = [PROPERTIES_FILE \<mapsto> Doc [[''id'' \<mapsto> JStr ''p1'', ''owner_id'' \<mapsto> JStr ''u1'',
           ''created_at'' \<mapsto> JStr ''2024-01-01'', ''title'' \<mapsto> JStr ''Villa'']]], events = []\<rparr> of
      Inl e \<Rightarrow> None
    | Inr (ok, w') \<Rightarrow> Some (ok, files w' PROPERTIES_FILE)) =
   Some (True, Some (Doc [[''id'' \<mapsto> JStr ''p1'', ''owner_id'' \<mapsto> JStr ''u1'',
           ''created_at'' \<mapsto> JStr ''2024-01-01'', ''status'' \<mapsto> JStr ''active'']])) \<and>
   [''id'' \<mapsto> JStr ''p1'', ''owner_id'' \<mapsto> JStr ''u1'',
    ''created_at'' \<mapsto> JStr ''2024-01-01'', ''title'' \<mapsto> JStr ''Villa''] ''title'' = Some (JStr ''Villa'') \<and>
   [''id'' \<mapsto> JStr ''p1'', ''owner_id'' \<mapsto> JStr ''u1'',
    ''created_at'' \<mapsto> JStr ''2024-01-01'', ''status'' \<mapsto> JStr ''active''] ''title'' = None"
  by (simp add: update_property_def load_data_def
      save_data_def upt_max_retries save_steps_def run_op_def PROPERTIES_FILE_def Let_def)

section \<open>Updating a user\<close>

text \<open>
  Claim C10. Whatever the users file holds (a collection whose records have an
  \<^verbatim>\<open>id\<close>, or nothing readable, which loads as the empty collection), the role,
  profile and wallet-address updates return \<^verbatim>\<open>True\<close> for every user id and every
  new value. When no stored user has the id they still return \<^verbatim>\<open>True\<close> and still
  write the users file, with the collection as it was loaded: the two steps of the
  write are added to the steps taken. The KYC-status update, on the same input, returns
  \<^verbatim>\<open>False\<close> and writes nothing.
\<close>

theorem user_updates_return_true:
  assumes loaded: "load_users w = (users, w1)"
    and ids: "\<forall>u \<in> set users. u ''id'' \<noteq> None"
  shows "(\<exists>w'. update_user_role user_id new_role w = Inr (True, w')) \<and>
         (\<exists>w'. update_user_profile user_id profile_data w = Inr (True, w')) \<and>
         (\<exists>w'. update_user_wallet user_id wallet_address w = Inr (True, w')) \<and>
         ((\<forall>u \<in> set users. \<exists>v. u ''id'' = Some v \<and> \<not> py_eq v user_id) \<longrightarrow>
            update_user_role user_id new_role w = Inr (True, save_users users w1) \<and>
            update_user_profile user_id profile_data w = Inr (True, save_users users w1) \<and>
            update_user_wallet user_id wallet_address w = Inr (True, save_users users w1) \<and>
            update_kyc_status user_id verified w = Inr (False, w1) \<and>
            files (save_users users w1) USERS_FILE = Some (Doc users) \<and>
            events (save_users users w1) =
              events w1 @ [IO (OpenW USERS_FILE), IO (Dump USERS_FILE users)])"
proof (intro conjI impI)
  obtain r1 where "change_first user_id (\<lambda>user. user(''user_type'' \<mapsto> new_role)) users = Inr r1"
    using change_first_total [OF ids] by blast
  then show "\<exists>w'. update_user_role user_id new_role w = Inr (True, w')"
    by (cases r1) (simp_all add: update_user_role_def loaded)
  obtain r2 where "change_first user_id (\<lambda>user. user ++ profile_data) users = Inr r2"
    using change_first_total [OF ids] by blast
  then show "\<exists>w'. update_user_profile user_id profile_data w = Inr (True, w')"
    by (cases r2) (simp_all add: update_user_profile_def loaded)
  obtain r3 where
    "change_first user_id (\<lambda>user. user(''wallet_address'' \<mapsto> wallet_address)) users = Inr r3"
    using change_first_total [OF ids] by blast
  then show "\<exists>w'. update_user_wallet user_id wallet_address w = Inr (True, w')"
    by (cases r3) (simp_all add: update_user_wallet_def loaded)
next
  assume none: "\<forall>u \<in> set users. \<exists>v. u ''id'' = Some v \<and> \<not> py_eq v user_id"
  note nm = change_first_no_match [OF none]
  show "update_user_role user_id new_role w = Inr (True, save_users users w1)"
    by (simp add: update_user_role_def loaded nm)
  show "update_user_profile user_id profile_data w = Inr (True, save_users users w1)"
    by (simp add: update_user_profile_def loaded nm)
  show "update_user_wallet user_id wallet_address w = Inr (True, save_users users w1)"
    by (simp add: update_user_wallet_def loaded nm)
  show "update_kyc_status user_id verified w = Inr (False, w1)"
    by (simp add: update_kyc_status_def loaded nm)
  show "files (save_users users w1) USERS_FILE = Some (Doc users)"
    by (rule files_save_users)
  show "events (save_users users w1) =
      events w1 @ [IO (OpenW USERS_FILE), IO (Dump USERS_FILE users)]"
    by (rule events_save_users)
qed

theorem user_updates_return_true_witness:
  "update_user_role (JStr ''nobody'') (JStr ''owner'')
     \<lparr>files = [USERS_FILE \<mapsto> Doc [[''id'' \<mapsto> JStr ''u1'', ''user_type'' \<mapsto> JStr ''renter'']]],
      events = []\<rparr> =
   Inr (True, save_users [[''id'' \<mapsto> JStr ''u1'', ''user_type'' \<mapsto> JStr ''renter'']]
     \<lparr>files = [USERS_FILE \<mapsto> Doc [[''id'' \<mapsto> JStr ''u1'', ''user_type'' \<mapsto> JStr ''renter'']]],
      events = []\<rparr>) \<and>
   update_kyc_status (JStr ''nobody'') (JBool True)
     \<lparr>files = [USERS_FILE \<mapsto> Doc [[''id'' \<mapsto> JStr ''u1'', ''user_type'' \<mapsto> JStr ''renter'']]],
      events = []\<rparr> =
   Inr (False,
     \<lparr>files = [USERS_FILE \<mapsto> Doc [[''id'' \<mapsto> JStr ''u1'', ''user_type'' \<mapsto> JStr ''renter'']]],
      events = []\<rparr>) \<and>
   events (save_users [[''id'' \<mapsto> JStr ''u1'', ''user_type'' \<mapsto> JStr ''renter'']]
     \<lparr>files = [USERS_FILE \<mapsto> Doc [[''id'' \<mapsto> JStr ''u1'', ''user_type'' \<mapsto> JStr ''renter'']]],
      events = []\<rparr>) =
   [IO (OpenW USERS_FILE),
    IO (Dump USERS_FILE [[''id'' \<mapsto> JStr ''u1'', ''user_type'' \<mapsto> JStr ''renter'']])]"
proof -
  let ?u = "[''id'' \<mapsto> JStr ''u1'', ''user_type'' \<mapsto> JStr ''renter'']"
  let ?w = "\<lparr>files = [USERS_FILE \<mapsto> Doc [?u]], events = []\<rparr>"
  have loaded: "load_users ?w = ([?u], ?w)" by (simp add: load_users_def)
  have ids: "\<forall>u \<in> set [?u]. u ''id'' \<noteq> None" by simp
  have none: "\<forall>u \<in> set [?u]. \<exists>v. u ''id'' = Some v \<and> \<not> py_eq v (JStr ''nobody'')" by simp
  note T = user_updates_return_true [OF loaded ids, of "JStr ''nobody''" "JStr ''owner''"
      Map.empty JNull "JBool True",
      THEN conjunct2, THEN conjunct2, THEN conjunct2, THEN mp, OF none]
  from T show ?thesis by simp
qed

section \<open>Completing a verification session\<close>

text \<open>
  Claim C8. For every existing verification session (the sessions file holds a
  collection whose records have an \<^verbatim>\<open>id\<close>, one of them the given id), completing it
  with \<^verbatim>\<open>verified=True\<close> succeeds, and completing it a second time succeeds too and
  leaves the session as the first call left it: \<^verbatim>\<open>status\<close> is \<^verbatim>\<open>"completed"\<close> and
  \<^verbatim>\<open>verified\<close> is \<^verbatim>\<open>True\<close>, and every field but the time stamp
  \<^verbatim>\<open>completed_at\<close>, which each call sets to its own time, has the same value as after
  one call. The session is read back with \<^verbatim>\<open>get_verification_session\<close>.
\<close>

theorem complete_twice_same_state:
  assumes stored: "files w SESSIONS_FILE = Some (Doc sessions)"
    and ids: "\<forall>s \<in> set sessions. s ''id'' \<noteq> None"
    and existing: "\<exists>s \<in> set sessions. \<exists>v. s ''id'' = Some v \<and> py_eq v session_id"
  shows "\<exists>w1 w2 s1 s2.
      complete_verification_session session_id (JBool True) t1 w = Inr (True, w1) \<and>
      complete_verification_session session_id (JBool True) t2 w1 = Inr (True, w2) \<and>
      get_verification_session session_id w1 = Inr (Some s1, w1) \<and>
      get_verification_session session_id w2 = Inr (Some s2, w2) \<and>
      s1 ''status'' = Some (JStr ''completed'') \<and> s1 ''verified'' = Some (JBool True) \<and>
      s2 ''status'' = Some (JStr ''completed'') \<and> s2 ''verified'' = Some (JBool True) \<and>
      (\<forall>k. k \<noteq> ''completed_at'' \<longrightarrow> s2 k = s1 k)"
proof -
  define mark where "mark = (\<lambda>t (session :: dict).
    session(''status'' \<mapsto> JStr ''completed'', ''verified'' \<mapsto> JBool True,
            ''completed_at'' \<mapsto> JStr t))"
  have keep: "\<And>t x. mark t x ''id'' = x ''id''" by (simp add: mark_def)
  from find_session_exists [OF ids existing] obtain s0 where
    s0: "find_session session_id sessions = Inr (Some s0)" by blast
  from change_first_found [where change = "mark t1", OF s0 keep] obtain ss1 where
    c1: "change_first session_id (mark t1) sessions = Inr (Some ss1)"
    and f1: "find_session session_id ss1 = Inr (Some (mark t1 s0))" by blast
  from change_first_found [where change = "mark t2", OF f1 keep] obtain ss2 where
    c2: "change_first session_id (mark t2) ss1 = Inr (Some ss2)"
    and f2: "find_session session_id ss2 = Inr (Some (mark t2 (mark t1 s0)))" by blast
  define w1 where "w1 = save_verification_sessions ss1 w"
  define w2 where "w2 = save_verification_sessions ss2 w1"
  have st1: "files w1 SESSIONS_FILE = Some (Doc ss1)"
    by (simp add: w1_def files_save_sessions)
  have st2: "files w2 SESSIONS_FILE = Some (Doc ss2)"
    by (simp add: w2_def files_save_sessions)
  have r1: "complete_verification_session session_id (JBool True) t1 w = Inr (True, w1)"
    using c1 by (simp add: complete_verification_session_def load_sessions_stored [OF stored]
        mark_def w1_def)
  have r2: "complete_verification_session session_id (JBool True) t2 w1 = Inr (True, w2)"
    using c2 by (simp add: complete_verification_session_def load_sessions_stored [OF st1]
        mark_def w2_def)
  have g1: "get_verification_session session_id w1 = Inr (Some (mark t1 s0), w1)"
    by (simp add: get_verification_session_def load_sessions_stored [OF st1] f1)
  have g2: "get_verification_session session_id w2 = Inr (Some (mark t2 (mark t1 s0)), w2)"
    by (simp add: get_verification_session_def load_sessions_stored [OF st2] f2)
  have a: "mark t1 s0 ''status'' = Some (JStr ''completed'')"
    and b: "mark t1 s0 ''verified'' = Some (JBool True)"
    and c: "mark t2 (mark t1 s0) ''status'' = Some (JStr ''completed'')"
    and d: "mark t2 (mark t1 s0) ''verified'' = Some (JBool True)"
    and e: "\<forall>k. k \<noteq> ''completed_at'' \<longrightarrow> mark t2 (mark t1 s0) k = mark t1 s0 k"
    by (simp_all add: mark_def)
  show ?thesis
    apply (rule exI [of _ w1], rule exI [of _ w2])
    apply (rule exI [of _ "mark t1 s0"], rule exI [of _ "mark t2 (mark t1 s0)"])
    apply (intro conjI r1 r2 g1 g2 a b c d e)
    done
qed

theorem complete_twice_same_state_witness:
  "\<exists>w1 w2 s1 s2.
      complete_verification_session (JStr ''s1'') (JBool True) ''2024-01-01T10:00:00''
        \<lparr>files = [SESSIONS_FILE \<mapsto> Doc [[''id'' \<mapsto> JStr ''s1'', ''status'' \<mapsto> JStr ''pending'']]],
         events = []\<rparr> = Inr (True, w1) \<and>
      complete_verification_session (JStr ''s1'') (JBool True) ''2024-01-01T11:00:00'' w1
        = Inr (True, w2) \<and>
      get_verification_session (JStr ''s1'') w1 = Inr (Some s1, w1) \<and>
      get_verification_session (JStr ''s1'') w2 = Inr (Some s2, w2) \<and>
      s1 ''status'' = Some (JStr ''completed'') \<and> s1 ''verified'' = Some (JBool True) \<and>
      s2 ''status'' = Some (JStr ''completed'') \<and> s2 ''verified'' = Some (JBool True) \<and>
      (\<forall>k. k \<noteq> ''completed_at'' \<longrightarrow> s2 k = s1 k)"
proof -
  let ?s = "[''id'' \<mapsto> JStr ''s1'', ''status'' \<mapsto> JStr ''pending'']"
  let ?w = "\<lparr>files = [SESSIONS_FILE \<mapsto> Doc [?s]], events = []\<rparr>"
  have stored: "files ?w SESSIONS_FILE = Some (Doc [?s])" by simp
  have ids: "\<forall>s \<in> set [?s]. s ''id'' \<noteq> None" by simp
  have existing: "\<exists>s \<in> set [?s]. \<exists>v. s ''id'' = Some v \<and> py_eq v (JStr ''s1'')" by simp
  show ?thesis by (rule complete_twice_same_state [OF stored ids existing])
qed

section \<open>Authentication\<close>

text \<open>
  Claim C4. For every stored user collection (every record has an \<^verbatim>\<open>id\<close>, an
  \<^verbatim>\<open>email\<close> and a \<^verbatim>\<open>password_hash\<close>), authentication with an email and a password
  returns success with a token and the user if and only if some stored user has that
  email and the hash of that password; otherwise it returns
  \<^verbatim>\<open>(False, None, None)\<close>. The token it issues expires 24 hours after the call: token
  verification rejects it as expired at any later time, and accepts it, returning the
  user's id, at any time before. In general a token whose expiry time stamp has passed
  is rejected, as expired when its signature is valid and as invalid otherwise.
\<close>

theorem verify_user_spec:
  assumes stored: "files w USERS_FILE = Some (Doc users)"
    and wf: "\<forall>u \<in> set users. u ''id'' \<noteq> None \<and> u ''email'' \<noteq> None \<and> u ''password_hash'' \<noteq> None"
  shows "((\<exists>tok u. verify_user H key now email password w = Inr ((True, Some tok, Some u), w)) \<longleftrightarrow>
          (\<exists>u \<in> set users. u ''email'' = Some (JStr email) \<and>
                            u ''password_hash'' = Some (JStr (H password)))) \<and>
         (\<not> (\<exists>u \<in> set users. u ''email'' = Some (JStr email) \<and>
                               u ''password_hash'' = Some (JStr (H password))) \<longrightarrow>
            verify_user H key now email password w = Inr ((False, None, None), w)) \<and>
         (\<forall>tok u t. verify_user H key now email password w = Inr ((True, Some tok, Some u), w) \<longrightarrow>
            (now + 24 * 3600 < t \<longrightarrow>
               verify_token key t tok = Inr (False, None, Inr ''Token expired'')) \<and>
            (t < now + 24 * 3600 \<longrightarrow>
               (\<exists>payload. verify_token key t tok = Inr (True, u ''id'', Inl payload)))) \<and>
         (\<forall>payload k e x t. payload ''exp'' = Some e \<and> py_num e = Some x \<and> x < t \<longrightarrow>
            verify_token key t (Signed payload k) = Inr (False, None, Inr ''Token expired'') \<or>
            verify_token key t (Signed payload k) = Inr (False, None, Inr ''Invalid token''))"
proof -
  let ?match = "\<exists>u \<in> set users. u ''email'' = Some (JStr email) \<and>
                  u ''password_hash'' = Some (JStr (H password))"
  have wf2: "\<forall>u \<in> set users. u ''email'' \<noteq> None \<and> u ''password_hash'' \<noteq> None"
    using wf by simp
  have no: "verify_user H key now email password w = Inr ((False, None, None), w)" if "\<not> ?match"
    using verify_user_loop_none [OF wf2 that]
    by (simp add: verify_user_def load_users_stored [OF stored])
  have yes: "\<exists>u uid. u ''id'' = Some uid \<and>
      verify_user H key now email password w =
        Inr ((True, Some (jwt_encode [''user_id'' \<mapsto> uid, ''email'' \<mapsto> JStr email,
               ''exp'' \<mapsto> JFloat (now + 24 * 3600)] key), Some u), w)" if "?match"
  proof -
    from verify_user_loop_some [OF wf that, of key now] obtain u uid where
      "u ''id'' = Some uid"
      "verify_user_loop key now email (H password) users =
         Inr (Some (jwt_encode [''user_id'' \<mapsto> uid, ''email'' \<mapsto> JStr email,
                                ''exp'' \<mapsto> JFloat (now + 24 * 3600)] key, u))" by blast
    then show ?thesis
      by (intro exI [of _ u] exI [of _ uid])
        (simp add: verify_user_def load_users_stored [OF stored])
  qed
  have iff: "(\<exists>tok u. verify_user H key now email password w = Inr ((True, Some tok, Some u), w))
      \<longleftrightarrow> ?match"
  proof
    assume "\<exists>tok u. verify_user H key now email password w = Inr ((True, Some tok, Some u), w)"
    then show ?match using no by (cases ?match) auto
  next
    assume ?match
    from yes [OF this] show
      "\<exists>tok u. verify_user H key now email password w = Inr ((True, Some tok, Some u), w)"
      by blast
  qed
  have issued: "\<forall>tok u t. verify_user H key now email password w = Inr ((True, Some tok, Some u), w) \<longrightarrow>
            (now + 24 * 3600 < t \<longrightarrow>
               verify_token key t tok = Inr (False, None, Inr ''Token expired'')) \<and>
            (t < now + 24 * 3600 \<longrightarrow>
               (\<exists>payload. verify_token key t tok = Inr (True, u ''id'', Inl payload)))"
  proof (intro allI impI)
    fix tok u t
    assume r: "verify_user H key now email password w = Inr ((True, Some tok, Some u), w)"
    then have "?match" using no by (cases ?match) auto
    from yes [OF this] r obtain uid where uid: "u ''id'' = Some uid"
      and tok: "tok = jwt_encode [''user_id'' \<mapsto> uid, ''email'' \<mapsto> JStr email,
               ''exp'' \<mapsto> JFloat (now + 24 * 3600)] key" by auto
    show "(now + 24 * 3600 < t \<longrightarrow>
               verify_token key t tok = Inr (False, None, Inr ''Token expired'')) \<and>
            (t < now + 24 * 3600 \<longrightarrow>
               (\<exists>payload. verify_token key t tok = Inr (True, u ''id'', Inl payload)))"
      unfolding tok uid verify_token_issued by simp
  qed
  have expired: "\<forall>payload k e x t. payload ''exp'' = Some e \<and> py_num e = Some x \<and> x < t \<longrightarrow>
            verify_token key t (Signed payload k) = Inr (False, None, Inr ''Token expired'') \<or>
            verify_token key t (Signed payload k) = Inr (False, None, Inr ''Invalid token'')"
    using verify_token_expired by blast
  from iff no issued expired show ?thesis by blast
qed

theorem verify_user_spec_witness:
  "(\<exists>tok u. verify_user rev ''secret'' 0 ''alice@example.com'' ''pw123''
      \<lparr>files = [USERS_FILE \<mapsto> Doc [[''id'' \<mapsto> JStr ''u1'', ''email'' \<mapsto> JStr ''alice@example.com'',
                                     ''password_hash'' \<mapsto> JStr ''321wp'']]], events = []\<rparr> =
      Inr ((True, Some tok, Some u),
        \<lparr>files = [USERS_FILE \<mapsto> Doc [[''id'' \<mapsto> JStr ''u1'', ''email'' \<mapsto> JStr ''alice@example.com'',
                                     ''password_hash'' \<mapsto> JStr ''321wp'']]], events = []\<rparr>)) \<and>
   verify_user rev ''secret'' 0 ''alice@example.com'' ''wrong''
      \<lparr>files = [USERS_FILE \<mapsto> Doc [[''id'' \<mapsto> JStr ''u1'', ''email'' \<mapsto> JStr ''alice@example.com'',
                                     ''password_hash'' \<mapsto> JStr ''321wp'']]], events = []\<rparr> =
      Inr ((False, None, None),
        \<lparr>files = [USERS_FILE \<mapsto> Doc [[''id'' \<mapsto> JStr ''u1'', ''email'' \<mapsto> JStr ''alice@example.com'',
                                     ''password_hash'' \<mapsto> JStr ''321wp'']]], events = []\<rparr>)"
proof -
  let ?u = "[''id'' \<mapsto> JStr ''u1'', ''email'' \<mapsto> JStr ''alice@example.com'',
             ''password_hash'' \<mapsto> JStr ''321wp'']"
  let ?w = "\<lparr>files = [USERS_FILE \<mapsto> Doc [?u]], events = []\<rparr>"
  have stored: "files ?w USERS_FILE = Some (Doc [?u])" by simp
  have wf: "\<forall>u \<in> set [?u]. u ''id'' \<noteq> None \<and> u ''email'' \<noteq> None \<and> u ''password_hash'' \<noteq> None"
    by simp
  have good: "\<exists>u \<in> set [?u]. u ''email'' = Some (JStr ''alice@example.com'') \<and>
      u ''password_hash'' = Some (JStr (rev ''pw123''))" by simp
  have bad: "\<not> (\<exists>u \<in> set [?u]. u ''email'' = Some (JStr ''alice@example.com'') \<and>
      u ''password_hash'' = Some (JStr (rev ''wrong'')))" by simp
  note A = verify_user_spec [OF stored wf, of rev "''secret''" 0 "''alice@example.com''" "''pw123''",
      THEN conjunct1, THEN iffD2, OF good]
  note B = verify_user_spec [OF stored wf, of rev "''secret''" 0 "''alice@example.com''" "''wrong''",
      THEN conjunct2, THEN conjunct1, THEN mp, OF bad]
  show ?thesis by (intro conjI A B)
qed

section \<open>Interrupted and failed writes\<close>

text \<open>
  Claim C3, as amended. \<^verbatim>\<open>save_data\<close>, through which the record collections of
  \<^verbatim>\<open>utils/database.py\<close> are updated, commits the full collection by writing a
  temporary sibling file and renaming it over the target: stopped after any number of
  the steps of an attempt, the target holds its previous contents until the rename and
  the whole new collection after it, and whatever steps fail, the target holds the
  previous contents or the new collection when \<^verbatim>\<open>save_data\<close> returns. The writes of
  the users collection by the auth service go through \<^verbatim>\<open>save_users\<close>, which opens the
  users file itself for writing and dumps into it: there is no temporary file and no
  rename, and between the two steps the users file is truncated.
\<close>

theorem atomic_save_spec:
  "files (interrupted n (save_steps d p) w) p = (if n < 3 then files w p else Some (Doc d)) \<and>
   (files (snd (save_data faults d p w)) p = files w p \<or>
    files (snd (save_data faults d p w)) p = Some (Doc d)) \<and>
   save_users users w = run_ops [OpenW USERS_FILE, Dump USERS_FILE users] w \<and>
   files (interrupted 1 [OpenW USERS_FILE, Dump USERS_FILE users] w) USERS_FILE = Some Unparsable \<and>
   files (save_users users w) USERS_FILE = Some (Doc users)"
proof (intro conjI)
  show "files (interrupted n (save_steps d p) w) p = (if n < 3 then files w p else Some (Doc d))"
    by (rule interrupted_save_target)
  show "files (snd (save_data faults d p w)) p = files w p \<or>
    files (snd (save_data faults d p w)) p = Some (Doc d)"
    unfolding save_data_def by (rule save_attempts_target)
  show "save_users users w = run_ops [OpenW USERS_FILE, Dump USERS_FILE users] w"
    by (simp add: save_users_def write_json_def)
  show "files (interrupted 1 [OpenW USERS_FILE, Dump USERS_FILE users] w) USERS_FILE =
      Some Unparsable"
    by (simp add: interrupted_def run_op_def)
  show "files (save_users users w) USERS_FILE = Some (Doc users)"
    by (rule files_save_users)
qed

theorem atomic_save_spec_witness:
  "files (interrupted 2 (save_steps [[''id'' \<mapsto> JStr ''p2'']] PROPERTIES_FILE)
     \<lparr>files = [PROPERTIES_FILE \<mapsto> Doc [[''id'' \<mapsto> JStr ''p1'']]], events = []\<rparr>) PROPERTIES_FILE =
     Some (Doc [[''id'' \<mapsto> JStr ''p1'']]) \<and>
   files (interrupted 3 (save_steps [[''id'' \<mapsto> JStr ''p2'']] PROPERTIES_FILE)
     \<lparr>files = [PROPERTIES_FILE \<mapsto> Doc [[''id'' \<mapsto> JStr ''p1'']]], events = []\<rparr>) PROPERTIES_FILE =
     Some (Doc [[''id'' \<mapsto> JStr ''p2'']])"
  using atomic_save_spec [of 2 "[[''id'' \<mapsto> JStr ''p2'']]" PROPERTIES_FILE
      "\<lparr>files = [PROPERTIES_FILE \<mapsto> Doc [[''id'' \<mapsto> JStr ''p1'']]], events = []\<rparr>"
      "\<lambda>n. None" "[]"]
    atomic_save_spec [of 3 "[[''id'' \<mapsto> JStr ''p2'']]" PROPERTIES_FILE
      "\<lparr>files = [PROPERTIES_FILE \<mapsto> Doc [[''id'' \<mapsto> JStr ''p1'']]], events = []\<rparr>"
      "\<lambda>n. None" "[]"]
  by simp

text \<open>
  The claim as stated fails: the users file holds one user, the auth service saves two,
  and an interruption after the first step of \<^verbatim>\<open>save_users\<close> leaves a file that is
  neither the previous contents nor the new ones.
\<close>

theorem save_users_interrupted_counterexample:
  "save_users [[''id'' \<mapsto> JStr ''u1''], [''id'' \<mapsto> JStr ''u2'']]
     \<lparr>files = [USERS_FILE \<mapsto> Doc [[''id'' \<mapsto> JStr ''u1'']]], events = []\<rparr> =
   run_ops [OpenW USERS_FILE, Dump USERS_FILE [[''id'' \<mapsto> JStr ''u1''], [''id'' \<mapsto> JStr ''u2'']]]
     \<lparr>files = [USERS_FILE \<mapsto> Doc [[''id'' \<mapsto> JStr ''u1'']]], events = []\<rparr> \<and>
   files (interrupted 1
       [OpenW USERS_FILE, Dump USERS_FILE [[''id'' \<mapsto> JStr ''u1''], [''id'' \<mapsto> JStr ''u2'']]]
       \<lparr>files = [USERS_FILE \<mapsto> Doc [[''id'' \<mapsto> JStr ''u1'']]], events = []\<rparr>) USERS_FILE =
     Some Unparsable \<and>
   files \<lparr>files = [USERS_FILE \<mapsto> Doc [[''id'' \<mapsto> JStr ''u1'']]], events = []\<rparr> USERS_FILE =
     Some (Doc [[''id'' \<mapsto> JStr ''u1'']])"
  by (simp add: save_users_def write_json_def interrupted_def run_op_def)

end
